theory Spec2Isabelle
  imports Complex_Main "HOL-Library.Multiset"
begin

section \<open>Data model\<close>

text \<open>
  A player is the object \<^verbatim>\<open>{ id: string, name: string, scores: (number | null)[] }\<close>.
  The field \<^verbatim>\<open>id\<close> is called \<open>pid\<close> here (\<open>id\<close> is the identity function of HOL).
  A score slot is an \<open>option\<close>: \<open>None\<close> is \<^verbatim>\<open>null\<close>. The record is polymorphic in the
  type of numbers: the ledger operations never compute with a score, the totals are taken
  over \<open>rat\<close> (a finite JavaScript number is a rational; sums are exact, the rounding of
  doubles is not part of the model), and the score cells produce values of the type
  \<open>jsnum\<close> below.
\<close>

record 'n player =
  pid :: string
  name :: string
  scores :: "'n option list"

subsection \<open>Rendering a number as a decimal string\<close>

text \<open>
  \<^verbatim>\<open>Number.prototype.toString\<close> and template literals on integers: decimal digits, most
  significant first, with a leading minus sign for a negative integer.
\<close>

definition digitChar :: "nat \<Rightarrow> char" where
  "digitChar d = char_of (48 + d)"

fun natStr :: "nat \<Rightarrow> string" where
  "natStr n = (if n < 10 then [digitChar n] else natStr (n div 10) @ [digitChar (n mod 10)])"

declare natStr.simps [simp del]

definition toString :: "int \<Rightarrow> string" where
  "toString i = (if i < 0 then CHR ''-'' # natStr (nat (- i)) else natStr (nat i))"

section \<open>Totals\<close>

text \<open>
  \<^verbatim>\<open>score || 0\<close>: \<^verbatim>\<open>null\<close> and the number 0 are falsy and give 0, every other number gives
  itself.
\<close>

definition orZero :: "rat option \<Rightarrow> rat" where
  "orZero score = (case score of None \<Rightarrow> 0 | Some v \<Rightarrow> if v = 0 then 0 else v)"

text \<open>
  \<^verbatim>\<open>p.scores.reduce((sum, s) => sum + (s || 0), 0)\<close>, the expression that every view uses
  for a player's total (named \<^verbatim>\<open>getTotal\<close> in the statistics view).
\<close>

definition getTotal :: "rat player \<Rightarrow> rat" where
  "getTotal p = foldl (\<lambda>sum s. sum + orZero s) 0 (scores p)"

text \<open>The table component: \<^verbatim>\<open>playerTotals\<close> is the list of \<^verbatim>\<open>{ id, total }\<close>.\<close>

definition playerTotals :: "rat player list \<Rightarrow> (string \<times> rat) list" where
  "playerTotals players =
     map (\<lambda>player. (pid player, foldl (\<lambda>sum score. sum + orZero score) 0 (scores player))) players"

text \<open>
  The row lookup of the table component:
  \<^verbatim>\<open>playerTotals.find(p => p.id === player.id)?.total ?? 0\<close>.
\<close>

definition totalScore :: "rat player list \<Rightarrow> rat player \<Rightarrow> rat" where
  "totalScore players player =
     (case find (\<lambda>p. fst p = pid player) (playerTotals players) of
        Some p \<Rightarrow> snd p
      | None \<Rightarrow> 0)"

text \<open>
  A spreadsheet cell is a string, a number or blank; a data row of the export is
  \<^verbatim>\<open>[player.name, ...player.scores.map((s) => s ?? ""), total]\<close>.
\<close>

datatype cell = Text string | Number rat | Blank

definition excelRow :: "rat player \<Rightarrow> cell list" where
  "excelRow player =
     (let total = foldl (\<lambda>sum score. sum + orZero score) 0 (scores player)
      in Text (name player) # map (\<lambda>s. case s of Some v \<Rightarrow> Number v | None \<Rightarrow> Blank) (scores player)
           @ [Number total])"

text \<open>The comparator of the ranking: \<^verbatim>\<open>(a, b) => totalB - totalA\<close>.\<close>

definition compareTotals :: "rat player \<Rightarrow> rat player \<Rightarrow> rat" where
  "compareTotals a b =
     (let totalA = foldl (\<lambda>sum score. sum + orZero score) 0 (scores a);
          totalB = foldl (\<lambda>sum score. sum + orZero score) 0 (scores b)
      in totalB - totalA)"

text \<open>
  The words of the specification: the present scores of a sequence, in order; the total is
  their sum.
\<close>

fun present :: "rat option list \<Rightarrow> rat list" where
  "present [] = []"
| "present (None # ss) = present ss"
| "present (Some v # ss) = v # present ss"

definition sumPresent :: "rat option list \<Rightarrow> rat" where
  "sumPresent ss = sum_list (present ss)"


section \<open>Ranking\<close>

text \<open>
  \<^verbatim>\<open>Array.prototype.sort\<close> with a comparator. ECMAScript (since 2019) requires the sort to be
  stable and leaves the algorithm open; the model is the stable insertion sort driven by
  the sign of the comparator: \<open>x\<close> is placed before the first element \<open>y\<close> with
  \<open>cmp x y \<le> 0\<close>, the elements being inserted from the right.
\<close>

fun insertBy :: "('a \<Rightarrow> 'a \<Rightarrow> rat) \<Rightarrow> 'a \<Rightarrow> 'a list \<Rightarrow> 'a list" where
  "insertBy cmp x [] = [x]"
| "insertBy cmp x (y # ys) = (if cmp x y \<le> 0 then x # y # ys else y # insertBy cmp x ys)"

definition sortBy :: "('a \<Rightarrow> 'a \<Rightarrow> rat) \<Rightarrow> 'a list \<Rightarrow> 'a list" where
  "sortBy cmp xs = foldr (insertBy cmp) xs []"

text \<open>\<^verbatim>\<open>sortedPlayers = [...players].sort((a, b) => totalB - totalA)\<close>\<close>

definition sortedPlayers :: "rat player list \<Rightarrow> rat player list" where
  "sortedPlayers players = sortBy compareTotals players"

section \<open>Winner flag\<close>

text \<open>
  The table component: \<^verbatim>\<open>highestScore\<close> is \<open>-1\<close> without players and
  \<^verbatim>\<open>Math.max(...allTotals)\<close> otherwise; a row is flagged when
  \<^verbatim>\<open>totalScore > 0 && totalScore === highestScore\<close>.
\<close>

definition highestScore :: "rat player list \<Rightarrow> rat" where
  "highestScore players =
     (if length players = 0 then - 1
      else (let allTotals = map snd (playerTotals players)
            in foldl max (hd allTotals) (tl allTotals)))"

definition isWinner :: "rat player list \<Rightarrow> rat player \<Rightarrow> bool" where
  "isWinner players player =
     (totalScore players player > 0 \<and> totalScore players player = highestScore players)"

text \<open>
  The single-file variants: the row at index \<open>idx\<close> of the table is flagged when
  \<^verbatim>\<open>idx === 0 && totalScore > 0\<close>, with the total computed by the reduction.
\<close>

definition isWinnerRank :: "nat \<Rightarrow> rat player \<Rightarrow> bool" where
  "isWinnerRank idx player =
     (idx = 0 \<and> foldl (\<lambda>sum s. sum + orZero s) 0 (scores player) > 0)"

section \<open>Ledger operations\<close>

text \<open>\<^verbatim>\<open>players.length > 0 ? players[0].scores.length : 5\<close>\<close>

definition numRounds :: "'n player list \<Rightarrow> nat" where
  "numRounds players = (if length players > 0 then length (scores (players ! 0)) else 5)"

text \<open>
  \<^verbatim>\<open>handleAddPlayer\<close>; \<open>now\<close> is the value of \<^verbatim>\<open>new Date().getTime()\<close> at the call.
\<close>

definition handleAddPlayer :: "int \<Rightarrow> 'n player list \<Rightarrow> 'n player list" where
  "handleAddPlayer now prevPlayers =
     (let rounds = (if length prevPlayers > 0 then length (scores (prevPlayers ! 0)) else 5);
          newPlayer = \<lparr> pid = toString now,
                        name = ''Player '' @ toString (int (length prevPlayers) + 1),
                        scores = replicate rounds None \<rparr>
      in prevPlayers @ [newPlayer])"

text \<open>\<^verbatim>\<open>handleRemovePlayer\<close>; \<open>confirmed\<close> is the answer of \<^verbatim>\<open>window.confirm\<close>.\<close>

definition handleRemovePlayer :: "bool \<Rightarrow> string \<Rightarrow> 'n player list \<Rightarrow> 'n player list" where
  "handleRemovePlayer confirmed ident prevPlayers =
     (if confirmed then filter (\<lambda>p. pid p \<noteq> ident) prevPlayers else prevPlayers)"

definition handleNameChange :: "string \<Rightarrow> string \<Rightarrow> 'n player list \<Rightarrow> 'n player list" where
  "handleNameChange ident newName prevPlayers =
     map (\<lambda>p. if pid p = ident then p\<lparr>name := newName\<rparr> else p) prevPlayers"

text \<open>
  \<^verbatim>\<open>newScores[roundIndex] = score\<close> on a copy of the array. Inside the array the slot is
  replaced. At or past the end JavaScript extends the array: the new value lands at
  \<open>roundIndex\<close> and the slots in between are left empty. An empty slot reads as
  \<^verbatim>\<open>undefined\<close>, which \<^verbatim>\<open>|| 0\<close> and \<^verbatim>\<open>?? ""\<close> treat as they treat \<^verbatim>\<open>null\<close>; the model
  writes \<open>None\<close> there. The table only calls the handler with indices inside the array.
\<close>

definition assignIndex :: "'a option list \<Rightarrow> nat \<Rightarrow> 'a option \<Rightarrow> 'a option list" where
  "assignIndex newScores roundIndex score =
     (if roundIndex < length newScores then newScores[roundIndex := score]
      else newScores @ replicate (roundIndex - length newScores) None @ [score])"

definition handleScoreChange ::
  "string \<Rightarrow> nat \<Rightarrow> 'n option \<Rightarrow> 'n player list \<Rightarrow> 'n player list" where
  "handleScoreChange ident roundIndex score prevPlayers =
     map (\<lambda>p. if pid p = ident then p\<lparr>scores := assignIndex (scores p) roundIndex score\<rparr> else p)
       prevPlayers"

text \<open>
  \<^verbatim>\<open>handleAddRound\<close> of the single-file variants: without players it installs one default
  player; otherwise every player gets one more \<^verbatim>\<open>null\<close> slot.
\<close>

definition handleAddRound :: "int \<Rightarrow> 'n player list \<Rightarrow> 'n player list" where
  "handleAddRound now players =
     (if length players = 0
      then [\<lparr> pid = toString now, name = ''Player 1'', scores = replicate 5 None \<rparr>]
      else map (\<lambda>p. p\<lparr>scores := scores p @ [None]\<rparr>) players)"

text \<open>
  \<^verbatim>\<open>handleAddRound\<close> of \<^verbatim>\<open>App.tsx\<close>: without players it shows an alert and returns.
\<close>

definition handleAddRoundApp :: "'n player list \<Rightarrow> 'n player list" where
  "handleAddRoundApp players =
     (if length players = 0 then players
      else map (\<lambda>p. p\<lparr>scores := scores p @ [None]\<rparr>) players)"

text \<open>\<^verbatim>\<open>p.scores.filter((_, i) => i !== roundIndex)\<close>\<close>

definition filterIndex :: "nat \<Rightarrow> 'a list \<Rightarrow> 'a list" where
  "filterIndex roundIndex xs = map snd (filter (\<lambda>(i, _). i \<noteq> roundIndex) (enumerate 0 xs))"

definition handleRemoveRound :: "bool \<Rightarrow> nat \<Rightarrow> 'n player list \<Rightarrow> 'n player list" where
  "handleRemoveRound confirmed roundIndex prevPlayers =
     (if confirmed then map (\<lambda>p. p\<lparr>scores := filterIndex roundIndex (scores p)\<rparr>) prevPlayers
      else prevPlayers)"

subsection \<open>Sessions\<close>

text \<open>
  A session is a sequence of user events, each handled to completion before the next.
  The handlers of the two builds (the table component with \<^verbatim>\<open>App.tsx\<close>, and the single-file
  variants) differ in \<^verbatim>\<open>handleAddRound\<close> only.
\<close>

datatype variant = Component | SingleFile

datatype 'n event =
    AddPlayer int
  | RemovePlayer bool string
  | NameChange string string
  | ScoreChange string nat "'n option"
  | AddRound int
  | RemoveRound bool nat

fun step :: "variant \<Rightarrow> 'n event \<Rightarrow> 'n player list \<Rightarrow> 'n player list" where
  "step v (AddPlayer now) ps = handleAddPlayer now ps"
| "step v (RemovePlayer confirmed ident) ps = handleRemovePlayer confirmed ident ps"
| "step v (NameChange ident newName) ps = handleNameChange ident newName ps"
| "step v (ScoreChange ident roundIndex score) ps = handleScoreChange ident roundIndex score ps"
| "step Component (AddRound now) ps = handleAddRoundApp ps"
| "step SingleFile (AddRound now) ps = handleAddRound now ps"
| "step v (RemoveRound confirmed roundIndex) ps = handleRemoveRound confirmed roundIndex ps"

fun run :: "variant \<Rightarrow> 'n player list \<Rightarrow> 'n event list \<Rightarrow> 'n player list" where
  "run v ps [] = ps"
| "run v ps (e # es) = run v (step v e ps) es"

text \<open>I1: every player has as many score slots as the ledger has rounds.\<close>

definition roundInvariant :: "'n player list \<Rightarrow> bool" where
  "roundInvariant ps = list_all (\<lambda>p. length (scores p) = numRounds ps) ps"

text \<open>
  The sequences of the round-count property: \<^verbatim>\<open>addPlayer\<close>, \<^verbatim>\<open>addRound\<close> and
  \<^verbatim>\<open>removeRound\<close> only, every removed index below the round count of the moment.
\<close>

fun roundOps :: "variant \<Rightarrow> 'n player list \<Rightarrow> 'n event list \<Rightarrow> bool" where
  "roundOps v ps [] = True"
| "roundOps v ps (e # es) =
     ((case e of
         AddPlayer now \<Rightarrow> True
       | AddRound now \<Rightarrow> True
       | RemoveRound confirmed roundIndex \<Rightarrow> roundIndex < numRounds ps
       | _ \<Rightarrow> False)
      \<and> roundOps v (step v e ps) es)"

text \<open>
  Identifier freshness along a session of \<^verbatim>\<open>addPlayer\<close> and \<^verbatim>\<open>removePlayer\<close>: \<open>used\<close>
  collects the identifiers assigned so far; an \<^verbatim>\<open>addPlayer\<close> is fresh when its identifier
  is neither the identifier of a player in the ledger nor in \<open>used\<close>.
\<close>

fun freshRun :: "variant \<Rightarrow> 'n player list \<Rightarrow> string list \<Rightarrow> 'n event list \<Rightarrow> bool" where
  "freshRun v ps used [] = True"
| "freshRun v ps used (AddPlayer now # es) =
     (toString now \<notin> set (map pid ps) \<and> toString now \<notin> set used
      \<and> freshRun v (step v (AddPlayer now) ps) (toString now # used) es)"
| "freshRun v ps used (RemovePlayer confirmed ident # es) =
     freshRun v (step v (RemovePlayer confirmed ident) ps) used es"
| "freshRun v ps used (e # es) = False"

text \<open>The clock readings of the \<^verbatim>\<open>addPlayer\<close> events of a session, in order.\<close>

fun addTimes :: "'n event list \<Rightarrow> int list" where
  "addTimes [] = []"
| "addTimes (AddPlayer now # es) = now # addTimes es"
| "addTimes (e # es) = addTimes es"

fun playerOps :: "'n event list \<Rightarrow> bool" where
  "playerOps [] = True"
| "playerOps (AddPlayer now # es) = playerOps es"
| "playerOps (RemovePlayer confirmed ident # es) = playerOps es"
| "playerOps (e # es) = False"

section \<open>Persistence\<close>

text \<open>
  The stored record is \<^verbatim>\<open>{ players, gameTitle, timestamp }\<close>. \<^verbatim>\<open>localStorage\<close> is a map
  from keys to stored strings; a stored string either is the JSON text of a record
  (\<open>Json\<close>; \<^verbatim>\<open>JSON.parse\<close> of \<^verbatim>\<open>JSON.stringify\<close> gives the record back) or is text on which
  \<^verbatim>\<open>JSON.parse\<close> throws (\<open>Malformed\<close>).
\<close>

record 'n snapshot =
  players :: "'n player list"
  gameTitle :: string
  timestamp :: int

datatype 'n stored = Malformed | Json "'n snapshot"

type_synonym 'n localStorage = "string \<rightharpoonup> 'n stored"

definition STORAGE_KEY :: string where
  "STORAGE_KEY = ''score_keeper_data''"

definition EXPIRY_TIME :: int where
  "EXPIRY_TIME = 10 * 60 * 60 * 1000"

text \<open>
  \<^verbatim>\<open>loadSavedData\<close> at clock reading \<open>now\<close>: the result (\<open>None\<close> is \<^verbatim>\<open>null\<close>) and the storage
  afterwards. The exception of \<^verbatim>\<open>JSON.parse\<close> is caught and logged, and the function
  returns \<^verbatim>\<open>null\<close>.
\<close>

definition loadSavedData :: "int \<Rightarrow> 'n localStorage \<Rightarrow> 'n snapshot option \<times> 'n localStorage" where
  "loadSavedData now ls =
     (case ls STORAGE_KEY of
        None \<Rightarrow> (None, ls)
      | Some Malformed \<Rightarrow> (None, ls)
      | Some (Json parsed) \<Rightarrow>
          if now - timestamp parsed < EXPIRY_TIME then (Some parsed, ls)
          else (None, ls(STORAGE_KEY := None)))"

text \<open>The saving effect: \<^verbatim>\<open>localStorage.setItem(STORAGE_KEY, JSON.stringify(data))\<close>.\<close>

definition saveData :: "int \<Rightarrow> 'n player list \<Rightarrow> string \<Rightarrow> 'n localStorage \<Rightarrow> 'n localStorage" where
  "saveData now ps title ls =
     ls(STORAGE_KEY \<mapsto> Json \<lparr> players = ps, gameTitle = title, timestamp = now \<rparr>)"

text \<open>
  The initial state of the application: \<^verbatim>\<open>initialData?.players || []\<close> and
  \<^verbatim>\<open>initialData?.gameTitle || "Score Keeper"\<close> (the empty string is falsy).
\<close>

definition initialPlayers :: "'n snapshot option \<Rightarrow> 'n player list" where
  "initialPlayers initialData = (case initialData of Some d \<Rightarrow> players d | None \<Rightarrow> [])"

definition initialTitle :: "'n snapshot option \<Rightarrow> string" where
  "initialTitle initialData =
     (case initialData of
        Some d \<Rightarrow> if gameTitle d = [] then ''Score Keeper'' else gameTitle d
      | None \<Rightarrow> ''Score Keeper'')"

section \<open>Cumulative progression\<close>

text \<open>
  The chart data of one player: the loop
  \<^verbatim>\<open>p.scores.forEach((s, rIdx) => { if (s !== null) { runningTotal += s; points.push({ round: rIdx + 1, score: runningTotal }) } })\<close>
  with its state \<open>runningTotal\<close>, \<open>points\<close>; a point is the pair (round, score).
\<close>

fun forEachScore ::
  "rat option list \<Rightarrow> nat \<Rightarrow> rat \<Rightarrow> (nat \<times> rat) list \<Rightarrow> (nat \<times> rat) list" where
  "forEachScore [] rIdx runningTotal points = points"
| "forEachScore (None # ss) rIdx runningTotal points =
     forEachScore ss (rIdx + 1) runningTotal points"
| "forEachScore (Some s # ss) rIdx runningTotal points =
     forEachScore ss (rIdx + 1) (runningTotal + s) (points @ [(rIdx + 1, runningTotal + s)])"

definition linePoints :: "rat option list \<Rightarrow> (nat \<times> rat) list" where
  "linePoints ss = forEachScore ss 0 0 [(0, 0)]"

definition PLAYER_COLORS :: "string list" where
  "PLAYER_COLORS = [''#fbbf24'', ''#38bdf8'', ''#f87171'', ''#34d399'',
                    ''#a78bfa'', ''#f472b6'', ''#fb923c'', ''#94a3b8'']"

record playerLine =
  line_id :: string
  line_name :: string
  color :: string
  points :: "(nat \<times> rat) list"

definition chartData :: "rat player list \<Rightarrow> playerLine list" where
  "chartData ps =
     (if length ps = 0 then []
      else map (\<lambda>(pIdx, p). \<lparr> line_id = pid p, line_name = name p,
                               color = PLAYER_COLORS ! (pIdx mod length PLAYER_COLORS),
                               points = linePoints (scores p) \<rparr>)
             (enumerate 0 ps))"

text \<open>
  The words of the specification: the point \<open>(0, 0)\<close>, then for each round index \<open>r\<close> with
  a present score, in increasing order, the pair of \<open>r + 1\<close> and the sum of the present
  scores up to and including \<open>r\<close>.
\<close>

definition progression :: "rat option list \<Rightarrow> (nat \<times> rat) list" where
  "progression ss =
     (0, 0) # map (\<lambda>r. (r + 1, sumPresent (take (r + 1) ss)))
                (filter (\<lambda>r. ss ! r \<noteq> None) [0..<length ss])"

section \<open>Score cells\<close>

text \<open>
  A JavaScript number as far as the score cells need it: not-a-number, the two infinities,
  or a finite double, given by its value (every finite double is a rational; the sign of
  zero is not represented).
\<close>

datatype jsnum = NaN | Infinity | NegInfinity | Fin rat

definition isNaN :: "jsnum \<Rightarrow> bool" where
  "isNaN x = (x = NaN)"

subsection \<open>The Number value of a rational\<close>

text \<open>
  The Number value of ECMAScript for a mathematical value: the nearest double, ties going
  to the even significand (IEEE 754 binary64, round to nearest, ties to even). For
  \<open>2\<^sup>e \<le> \<bar>x\<bar> < 2\<^sup>e\<^sup>+\<^sup>1\<close> the doubles are the multiples of \<open>2\<^sup>e\<^sup>-\<^sup>5\<^sup>2\<close>; below \<open>2\<^sup>-\<^sup>1\<^sup>0\<^sup>2\<^sup>2\<close> they
  are the multiples of \<open>2\<^sup>-\<^sup>1\<^sup>0\<^sup>7\<^sup>4\<close>; a result of \<open>2\<^sup>1\<^sup>0\<^sup>2\<^sup>4\<close> or more is an infinity.
\<close>

function log2i :: "int \<Rightarrow> int" where
  "log2i a = (if a < 2 then 0 else 1 + log2i (a div 2))"
  by pat_completeness auto
termination
  by (relation "measure nat") auto

declare log2i.simps [simp del]

text \<open>For \<open>x > 0\<close>, the exponent \<open>e\<close> with \<open>2\<^sup>e \<le> x < 2\<^sup>e\<^sup>+\<^sup>1\<close>.\<close>

definition floorLog2 :: "rat \<Rightarrow> int" where
  "floorLog2 x =
     (let (a, b) = quotient_of x;
          d = log2i a - log2i b
      in if 2 powi d \<le> x then d else d - 1)"

definition roundHalfEven :: "rat \<Rightarrow> int" where
  "roundHalfEven y =
     (let f = \<lfloor>y\<rfloor>; d = y - of_int f
      in if d < 1 / 2 then f else if 1 / 2 < d then f + 1 else if even f then f else f + 1)"

definition toDouble :: "rat \<Rightarrow> jsnum" where
  "toDouble x =
     (if x = 0 then Fin 0
      else (let a = \<bar>x\<bar>;
                e = max (floorLog2 a) (- 1022);
                q = 2 powi (e - 52);
                r = of_int (roundHalfEven (a / q)) * q
            in if 2 powi 1024 \<le> r then (if x < 0 then NegInfinity else Infinity)
               else Fin (if x < 0 then - r else r)))"

subsection \<open>Parsing\<close>

text \<open>
  A JavaScript string is a sequence of UTF-16 code units, here natural numbers; \<open>units\<close>
  gives the code units of an ASCII text.
\<close>

definition units :: "string \<Rightarrow> nat list" where
  "units s = map of_char s"

text \<open>
  The white space that \<^verbatim>\<open>parseInt\<close> and \<^verbatim>\<open>parseFloat\<close> skip: the white space and line
  terminator code points of ECMAScript (tab, line feed, vertical tab, form feed, carriage
  return, space, no-break space, the other space separators, line and paragraph separator,
  the byte order mark).
\<close>

definition isWhiteSpace :: "nat \<Rightarrow> bool" where
  "isWhiteSpace c =
     (c \<in> {9, 10, 11, 12, 13, 32, 160, 5760, 8232, 8233, 8239, 8287, 12288, 65279}
      \<or> (8192 \<le> c \<and> c \<le> 8202))"

definition isDigit :: "nat \<Rightarrow> bool" where
  "isDigit c = (48 \<le> c \<and> c \<le> 57)"

definition digitVal :: "nat \<Rightarrow> nat" where
  "digitVal c = c - 48"

definition digitsVal :: "nat list \<Rightarrow> nat" where
  "digitsVal ds = foldl (\<lambda>acc c. 10 * acc + digitVal c) 0 ds"

text \<open>The optional sign: code unit 45 is the minus sign, 43 the plus sign.\<close>

definition stripSign :: "nat list \<Rightarrow> int \<times> nat list" where
  "stripSign s =
     (case s of
        [] \<Rightarrow> (1, s)
      | c # r \<Rightarrow> if c = 45 then (- 1, r) else if c = 43 then (1, r) else (1, s))"

text \<open>
  \<^verbatim>\<open>parseInt(string, 10)\<close> of ECMAScript: skip leading white space, take an optional sign,
  take the longest run of decimal digits; no digit gives \<^verbatim>\<open>NaN\<close>, otherwise the Number
  value of the signed integer the digits write. What follows the digits is ignored. (For
  more than 20 significant digits ECMAScript lets an implementation replace the later
  digits by zeros; the model keeps them.)
\<close>

definition parseInt :: "nat list \<Rightarrow> jsnum" where
  "parseInt input =
     (let (sign, s) = stripSign (dropWhile isWhiteSpace input);
          z = takeWhile isDigit s
      in if z = [] then NaN else toDouble (of_int (sign * int (digitsVal z))))"

text \<open>
  \<^verbatim>\<open>parseFloat(string)\<close> of ECMAScript: skip leading white space and read the longest
  prefix that is a decimal literal: an optional sign, then \<^verbatim>\<open>Infinity\<close> or digits with an
  optional fraction (at least one digit before or after the point, code unit 46) and an
  optional exponent (\<^verbatim>\<open>e\<close> or \<^verbatim>\<open>E\<close>, code units 101 and 69, an optional sign, at least one
  digit). No such prefix gives \<^verbatim>\<open>NaN\<close>; otherwise the result is the Number value of the
  decimal value of the prefix. (For more than 20 significant digits ECMAScript lets an
  implementation round the decimal value to 20 digits first; the model does not.)
\<close>

definition exponentPart :: "nat list \<Rightarrow> int" where
  "exponentPart s =
     (case s of
        [] \<Rightarrow> 0
      | c # r \<Rightarrow>
          if c = 101 \<or> c = 69
          then (let (sign, r') = stripSign r; ds = takeWhile isDigit r'
                in if ds = [] then 0 else sign * int (digitsVal ds))
          else 0)"

definition pow10 :: "int \<Rightarrow> rat" where
  "pow10 e = (if 0 \<le> e then 10 ^ nat e else 1 / 10 ^ nat (- e))"

definition fractionPart :: "nat list \<Rightarrow> nat list \<Rightarrow> nat list \<times> nat list" where
  "fractionPart intDigits rest =
     (case rest of
        [] \<Rightarrow> ([], rest)
      | c # r \<Rightarrow>
          if c = 46 \<and> (intDigits \<noteq> [] \<or> takeWhile isDigit r \<noteq> [])
          then (takeWhile isDigit r, dropWhile isDigit r)
          else ([], rest))"

definition parseFloat :: "nat list \<Rightarrow> jsnum" where
  "parseFloat input =
     (let (sign, s) = stripSign (dropWhile isWhiteSpace input)
      in if take 8 s = units ''Infinity'' then (if sign < 0 then NegInfinity else Infinity)
         else
           (let intDigits = takeWhile isDigit s;
                (fracDigits, rest) = fractionPart intDigits (dropWhile isDigit s)
            in if intDigits = [] \<and> fracDigits = [] then NaN
               else toDouble (of_int sign * of_nat (digitsVal (intDigits @ fracDigits))
                               / 10 ^ length fracDigits * pow10 (exponentPart rest))))"

text \<open>
  The value a score cell hands to \<^verbatim>\<open>onScoreChange\<close> for the text \<open>v\<close> of the input element.
  Table component:
  \<^verbatim>\<open>const score = parseInt(e.target.value, 10); ... isNaN(score) ? null : score\<close>.
\<close>

definition scoreOfParseInt :: "nat list \<Rightarrow> jsnum option" where
  "scoreOfParseInt v = (let score = parseInt v in if isNaN score then None else Some score)"

text \<open>
  Single-file variants:
  \<^verbatim>\<open>const val = e.target.value === "" ? null : parseFloat(e.target.value)\<close>.
\<close>

definition scoreOfParseFloat :: "nat list \<Rightarrow> jsnum option" where
  "scoreOfParseFloat v = (if v = [] then None else Some (parseFloat v))"

subsection \<open>The texts of a number input\<close>

text \<open>
  Both score cells are input elements with \<^verbatim>\<open>type="number"\<close>. The value of such an element
  is the empty text or a valid floating-point number of HTML: an optional minus sign
  \<open>sg\<close>; digits \<open>ds1\<close>, or a point followed by digits \<open>ds2\<close>, or both; optionally an
  exponent: the letter \<^verbatim>\<open>e\<close> or \<^verbatim>\<open>E\<close>, an optional sign and digits. \<open>floatText\<close> writes such a
  text from its parts (an empty \<open>ds2\<close> means no point), \<open>validFloat\<close> says that the parts are
  well formed, and \<open>floatValue\<close> is the decimal value the text denotes.
\<close>

datatype exponent = NoExponent | Exponent nat "nat list" "nat list"

fun exponentText :: "exponent \<Rightarrow> nat list" where
  "exponentText NoExponent = []"
| "exponentText (Exponent c es ds3) = c # es @ ds3"

fun exponentValue :: "exponent \<Rightarrow> int" where
  "exponentValue NoExponent = 0"
| "exponentValue (Exponent c es ds3) = (if es = [45] then - 1 else 1) * int (digitsVal ds3)"

fun validExponent :: "exponent \<Rightarrow> bool" where
  "validExponent NoExponent = True"
| "validExponent (Exponent c es ds3) =
     ((c = 101 \<or> c = 69) \<and> (es = [] \<or> es = [43] \<or> es = [45])
      \<and> ds3 \<noteq> [] \<and> list_all isDigit ds3)"

definition floatText :: "nat list \<Rightarrow> nat list \<Rightarrow> nat list \<Rightarrow> exponent \<Rightarrow> nat list" where
  "floatText sg ds1 ds2 ex = sg @ ds1 @ (if ds2 = [] then [] else 46 # ds2) @ exponentText ex"

definition validFloat :: "nat list \<Rightarrow> nat list \<Rightarrow> nat list \<Rightarrow> exponent \<Rightarrow> bool" where
  "validFloat sg ds1 ds2 ex =
     ((sg = [] \<or> sg = [45]) \<and> list_all isDigit ds1 \<and> list_all isDigit ds2
      \<and> (ds1 \<noteq> [] \<or> ds2 \<noteq> []) \<and> validExponent ex)"

definition floatValue :: "nat list \<Rightarrow> nat list \<Rightarrow> nat list \<Rightarrow> exponent \<Rightarrow> rat" where
  "floatValue sg ds1 ds2 ex =
     of_int (if sg = [45] then - 1 else 1) * of_nat (digitsVal (ds1 @ ds2))
       / 10 ^ length ds2 * pow10 (exponentValue ex)"

section \<open>Decimal digits\<close>

lemma digitChar_eval:
  "digitChar 0 = CHR ''0''" "digitChar 1 = CHR ''1''" "digitChar 2 = CHR ''2''"
  "digitChar 3 = CHR ''3''" "digitChar 4 = CHR ''4''" "digitChar 5 = CHR ''5''"
  "digitChar 6 = CHR ''6''" "digitChar 7 = CHR ''7''" "digitChar 8 = CHR ''8''"
  "digitChar 9 = CHR ''9''" "digitChar (Suc 0) = CHR ''1''"
  by code_simp+

lemmas toString_eval = toString_def natStr.simps digitChar_eval

lemma of_char_digitChar: "d < 10 \<Longrightarrow> (of_char (digitChar d) :: nat) = 48 + d"
  by (simp add: digitChar_def)

lemma isDigit_digitChar: "d < 10 \<Longrightarrow> isDigit (of_char (digitChar d))"
  by (simp add: isDigit_def of_char_digitChar)

lemma digitVal_digitChar: "d < 10 \<Longrightarrow> digitVal (of_char (digitChar d)) = d"
  by (simp add: digitVal_def of_char_digitChar)

lemma replicate_5: "replicate 5 x = [x, x, x, x, x]"
  by (simp add: numeral_eq_Suc)

section \<open>Properties of the totals\<close>

lemma orZero_simps [simp]: "orZero None = 0" "orZero (Some v) = v"
  by (simp_all add: orZero_def)

lemma foldl_orZero_acc:
  "foldl (\<lambda>sum s. sum + orZero s) a ss = a + sumPresent ss"
proof (induction ss arbitrary: a)
  case Nil
  show ?case by (simp add: sumPresent_def)
next
  case (Cons s ss)
  show ?case
  proof (cases s)
    case None
    with Cons show ?thesis by (simp add: sumPresent_def)
  next
    case (Some v)
    with Cons show ?thesis by (simp add: sumPresent_def)
  qed
qed

lemma reduce_eq_sumPresent:
  "foldl (\<lambda>sum s. sum + orZero s) 0 ss = sumPresent ss"
  by (simp add: foldl_orZero_acc)

lemma getTotal_eq: "getTotal p = sumPresent (scores p)"
  by (simp add: getTotal_def reduce_eq_sumPresent)

lemma present_append: "present (xs @ ys) = present xs @ present ys"
  by (induction xs rule: present.induct) simp_all

lemma sumPresent_append: "sumPresent (xs @ ys) = sumPresent xs + sumPresent ys"
  by (simp add: sumPresent_def present_append)

lemma sumPresent_insert_absent:
  "sumPresent (take i ss @ None # drop i ss) = sumPresent ss"
proof -
  have "sumPresent (take i ss @ None # drop i ss) = sumPresent (take i ss) + sumPresent (drop i ss)"
    by (simp add: sumPresent_def present_append)
  also have "\<dots> = sumPresent (take i ss @ drop i ss)"
    by (simp only: sumPresent_append)
  finally show ?thesis by simp
qed

lemma playerTotals_eq:
  "playerTotals ps = map (\<lambda>q. (pid q, sumPresent (scores q))) ps"
  by (simp add: playerTotals_def reduce_eq_sumPresent)

lemma compareTotals_eq:
  "compareTotals a b = sumPresent (scores b) - sumPresent (scores a)"
  by (simp add: compareTotals_def reduce_eq_sumPresent)

lemma last_excelRow: "last (excelRow p) = Number (sumPresent (scores p))"
  by (simp add: excelRow_def reduce_eq_sumPresent)

text \<open>
  The row lookup goes through the identifier: it finds the player's own entry when the
  identifiers of the list are pairwise different.
\<close>

lemma find_playerTotals:
  "distinct (map pid ps) \<Longrightarrow> p \<in> set ps \<Longrightarrow>
   find (\<lambda>e. fst e = pid p) (playerTotals ps) = Some (pid p, sumPresent (scores p))"
proof (induction ps)
  case Nil
  then show ?case by simp
next
  case (Cons q qs)
  show ?case
  proof (cases "pid q = pid p")
    case True
    have "p = q"
    proof (rule ccontr)
      assume "p \<noteq> q"
      with Cons.prems(2) have "p \<in> set qs" by simp
      then have "pid p \<in> set (map pid qs)" by simp
      with True Cons.prems(1) show False by simp
    qed
    then show ?thesis by (simp add: playerTotals_eq)
  next
    case False
    with Cons.prems(2) have "p \<in> set qs" by auto
    moreover from Cons.prems(1) have "distinct (map pid qs)" by simp
    ultimately have "find (\<lambda>e. fst e = pid p) (playerTotals qs) = Some (pid p, sumPresent (scores p))"
      by (rule Cons.IH[rotated])
    with False show ?thesis by (simp add: playerTotals_eq)
  qed
qed

lemma totalScore_distinct:
  "distinct (map pid ps) \<Longrightarrow> p \<in> set ps \<Longrightarrow> totalScore ps p = sumPresent (scores p)"
  by (simp add: totalScore_def find_playerTotals)

text \<open>
  With a repeated identifier the lookup returns the entry of the first player that carries
  it, for every row with that identifier.
\<close>

lemma totalScore_repeated_id:
  "totalScore [\<lparr>pid = ''7'', name = ''A'', scores = [Some 5]\<rparr>,
               \<lparr>pid = ''7'', name = ''B'', scores = [Some 9]\<rparr>]
              \<lparr>pid = ''7'', name = ''B'', scores = [Some 9]\<rparr> = 5"
  by (simp add: totalScore_def playerTotals_def)

section \<open>C1: totals\<close>

text \<open>
  The views that compute the total from the player's own scores: the reduction of the
  single-file tables and of the statistics view (\<open>getTotal\<close>), the comparator of the
  ranking, the entries of \<open>playerTotals\<close> and the last cell of a spreadsheet row all give the
  sum of the present scores, and an absent slot put at any position \<open>i\<close> leaves it
  unchanged. The row lookup \<open>totalScore\<close> of the table component agrees with them for a
  list whose identifiers are pairwise different.
\<close>

lemma total_is_sum_of_present:
  "getTotal p = sumPresent (scores p)
   \<and> compareTotals a b = sumPresent (scores b) - sumPresent (scores a)
   \<and> playerTotals ps = map (\<lambda>q. (pid q, sumPresent (scores q))) ps
   \<and> last (excelRow p) = Number (sumPresent (scores p))
   \<and> (distinct (map pid ps) \<and> p \<in> set ps \<longrightarrow> totalScore ps p = sumPresent (scores p))
   \<and> sumPresent (take i ss @ None # drop i ss) = sumPresent ss
   \<and> foldl (\<lambda>sum s. sum + orZero s) 0 (take i ss @ None # drop i ss)
       = foldl (\<lambda>sum s. sum + orZero s) 0 ss"
proof -
  have "foldl (\<lambda>sum s. sum + orZero s) 0 (take i ss @ None # drop i ss)
          = foldl (\<lambda>sum s. sum + orZero s) 0 ss"
    by (simp only: reduce_eq_sumPresent sumPresent_insert_absent)
  moreover have "distinct (map pid ps) \<and> p \<in> set ps \<longrightarrow> totalScore ps p = sumPresent (scores p)"
    by (simp add: totalScore_distinct)
  ultimately show ?thesis
    using getTotal_eq[of p] compareTotals_eq[of a b] playerTotals_eq[of ps] last_excelRow[of p]
      sumPresent_insert_absent[of i ss]
    by blast
qed

text \<open>
  C1. The claim fails on the table component. Two \<^verbatim>\<open>addPlayer\<close> calls at the same clock
  reading 1000, with a score of 5 entered for the first player in between, give a ledger of
  two players with the identifier \<^verbatim>\<open>1000\<close>; the ranking keeps their order. The scores of
  the second player are all absent, so the sum of the present scores is 0, and the
  comparator of the ranking, the entry of \<open>playerTotals\<close> and the spreadsheet row say 0; the
  row of the table shows \<open>totalScore\<close>, the total of the first entry with that identifier,
  which is 5.
\<close>

theorem table_total_repeated_id:
  "run Component [] [AddPlayer 1000, ScoreChange ''1000'' 0 (Some 5), AddPlayer 1000]
     = [\<lparr>pid = ''1000'', name = ''Player 1'', scores = [Some 5, None, None, None, None]\<rparr>,
        \<lparr>pid = ''1000'', name = ''Player 2'', scores = [None, None, None, None, None]\<rparr>]
   \<and> sortedPlayers
        [\<lparr>pid = ''1000'', name = ''Player 1'', scores = [Some 5, None, None, None, None]\<rparr>,
         \<lparr>pid = ''1000'', name = ''Player 2'', scores = [None, None, None, None, None]\<rparr>]
     = [\<lparr>pid = ''1000'', name = ''Player 1'', scores = [Some 5, None, None, None, None]\<rparr>,
        \<lparr>pid = ''1000'', name = ''Player 2'', scores = [None, None, None, None, None]\<rparr>]
   \<and> totalScore
        [\<lparr>pid = ''1000'', name = ''Player 1'', scores = [Some 5, None, None, None, None]\<rparr>,
         \<lparr>pid = ''1000'', name = ''Player 2'', scores = [None, None, None, None, None]\<rparr>]
        \<lparr>pid = ''1000'', name = ''Player 2'', scores = [None, None, None, None, None]\<rparr> = 5
   \<and> sumPresent [None, None, None, None, None] = 0
   \<and> snd (playerTotals
        [\<lparr>pid = ''1000'', name = ''Player 1'', scores = [Some 5, None, None, None, None]\<rparr>,
         \<lparr>pid = ''1000'', name = ''Player 2'', scores = [None, None, None, None, None]\<rparr>] ! 1) = 0
   \<and> last (excelRow \<lparr>pid = ''1000'', name = ''Player 2'', scores = [None, None, None, None, None]\<rparr>)
     = Number 0"
proof (intro conjI)
  show "run Component [] [AddPlayer 1000, ScoreChange ''1000'' 0 (Some 5), AddPlayer 1000]
     = [\<lparr>pid = ''1000'', name = ''Player 1'', scores = [Some 5, None, None, None, None]\<rparr>,
        \<lparr>pid = ''1000'', name = ''Player 2'', scores = [None, None, None, None, None]\<rparr>]"
    by (simp add: handleAddPlayer_def handleScoreChange_def assignIndex_def toString_eval
          replicate_5)
  show "sortedPlayers
        [\<lparr>pid = ''1000'', name = ''Player 1'', scores = [Some 5, None, None, None, None]\<rparr>,
         \<lparr>pid = ''1000'', name = ''Player 2'', scores = [None, None, None, None, None]\<rparr>]
     = [\<lparr>pid = ''1000'', name = ''Player 1'', scores = [Some 5, None, None, None, None]\<rparr>,
        \<lparr>pid = ''1000'', name = ''Player 2'', scores = [None, None, None, None, None]\<rparr>]"
    by (simp add: sortedPlayers_def sortBy_def compareTotals_def)
  show "totalScore
        [\<lparr>pid = ''1000'', name = ''Player 1'', scores = [Some 5, None, None, None, None]\<rparr>,
         \<lparr>pid = ''1000'', name = ''Player 2'', scores = [None, None, None, None, None]\<rparr>]
        \<lparr>pid = ''1000'', name = ''Player 2'', scores = [None, None, None, None, None]\<rparr> = 5"
    by (simp add: totalScore_def playerTotals_def)
  show "sumPresent [None, None, None, None, None] = 0"
    by (simp add: sumPresent_def)
  show "snd (playerTotals
        [\<lparr>pid = ''1000'', name = ''Player 1'', scores = [Some 5, None, None, None, None]\<rparr>,
         \<lparr>pid = ''1000'', name = ''Player 2'', scores = [None, None, None, None, None]\<rparr>] ! 1) = 0"
    by (simp add: playerTotals_def)
  show "last (excelRow \<lparr>pid = ''1000'', name = ''Player 2'', scores = [None, None, None, None, None]\<rparr>)
     = Number 0"
    by (simp add: excelRow_def)
qed

section \<open>C10: an identifier that matches no player\<close>

lemma handleScoreChange_unmatched:
  "ident \<notin> set (map pid ps) \<Longrightarrow> handleScoreChange ident roundIndex score ps = ps"
  unfolding handleScoreChange_def by (induction ps) auto

lemma handleNameChange_unmatched:
  "ident \<notin> set (map pid ps) \<Longrightarrow> handleNameChange ident newName ps = ps"
  unfolding handleNameChange_def by (induction ps) auto

text \<open>
  C10. When no player of the ledger has the identifier \<open>ident\<close>, \<open>handleScoreChange\<close>
  (for every round index, inside or outside the score array, and every value) and
  \<open>handleNameChange\<close> return the list of players unchanged.
\<close>

theorem unmatched_id_is_noop:
  "ident \<notin> set (map pid ps) \<Longrightarrow>
   handleScoreChange ident roundIndex score ps = ps \<and> handleNameChange ident newName ps = ps"
  by (simp add: handleScoreChange_unmatched handleNameChange_unmatched)

theorem unmatched_id_is_noop_witness:
  "''9'' \<notin> set (map pid [\<lparr>pid = ''1'', name = ''A'', scores = [Some (5::rat), None]\<rparr>,
                             \<lparr>pid = ''2'', name = ''B'', scores = [None, Some 3]\<rparr>])
   \<and> handleScoreChange ''9'' 7 (Some 4)
        [\<lparr>pid = ''1'', name = ''A'', scores = [Some (5::rat), None]\<rparr>,
         \<lparr>pid = ''2'', name = ''B'', scores = [None, Some 3]\<rparr>]
       = [\<lparr>pid = ''1'', name = ''A'', scores = [Some 5, None]\<rparr>,
          \<lparr>pid = ''2'', name = ''B'', scores = [None, Some 3]\<rparr>]
   \<and> handleNameChange ''9'' ''Z''
        [\<lparr>pid = ''1'', name = ''A'', scores = [Some (5::rat), None]\<rparr>,
         \<lparr>pid = ''2'', name = ''B'', scores = [None, Some 3]\<rparr>]
       = [\<lparr>pid = ''1'', name = ''A'', scores = [Some 5, None]\<rparr>,
          \<lparr>pid = ''2'', name = ''B'', scores = [None, Some 3]\<rparr>]"
  using unmatched_id_is_noop
    [of "''9''" "[\<lparr>pid = ''1'', name = ''A'', scores = [Some (5::rat), None]\<rparr>,
                  \<lparr>pid = ''2'', name = ''B'', scores = [None, Some 3]\<rparr>]" 7 "Some 4" "''Z''"]
  by simp

section \<open>C6: adding a round\<close>

lemma numRounds_append_slot:
  "ps \<noteq> [] \<Longrightarrow> numRounds (map (\<lambda>p. p\<lparr>scores := scores p @ [None]\<rparr>) ps) = numRounds ps + 1"
  by (cases ps) (simp_all add: numRounds_def)

text \<open>
  The claim as it is written fails on the build of \<^verbatim>\<open>App.tsx\<close>: there, adding a round to
  the empty ledger creates no player.
\<close>

theorem addRound_empty_counterexample:
  "step Component (AddRound 1000) ([] :: rat player list) = []
   \<and> length (step Component (AddRound 1000) ([] :: rat player list)) \<noteq> 1"
  by (simp add: handleAddRoundApp_def)

text \<open>
  C6, amended. On a ledger without players, \<open>handleAddRound\<close> of the single-file variants
  creates exactly one player, named \<^verbatim>\<open>Player 1\<close>, with 5 absent slots, and the round count
  is 5 before and after; \<open>handleAddRoundApp\<close> of \<^verbatim>\<open>App.tsx\<close> leaves the ledger empty. On a
  ledger with at least one player, both append exactly one absent slot to the scores of
  every player and change nothing else, and the round count grows by 1.
\<close>

theorem addRound_behaviour:
  "(ps = [] \<longrightarrow>
      handleAddRound now ps = [\<lparr> pid = toString now, name = ''Player 1'', scores = replicate 5 None \<rparr>]
      \<and> numRounds ps = 5 \<and> numRounds (handleAddRound now ps) = 5
      \<and> handleAddRoundApp ps = [])
   \<and> (ps \<noteq> [] \<longrightarrow>
      handleAddRound now ps = map (\<lambda>p. p\<lparr>scores := scores p @ [None]\<rparr>) ps
      \<and> handleAddRoundApp ps = map (\<lambda>p. p\<lparr>scores := scores p @ [None]\<rparr>) ps
      \<and> numRounds (handleAddRound now ps) = numRounds ps + 1
      \<and> numRounds (handleAddRoundApp ps) = numRounds ps + 1)"
proof (cases "ps = []")
  case True
  then show ?thesis by (simp add: handleAddRound_def handleAddRoundApp_def numRounds_def)
next
  case False
  then show ?thesis
    by (simp add: handleAddRound_def handleAddRoundApp_def numRounds_append_slot)
qed

theorem addRound_behaviour_witness:
  "handleAddRound 1000 ([] :: rat player list)
     = [\<lparr> pid = ''1000'', name = ''Player 1'', scores = [None, None, None, None, None] \<rparr>]
   \<and> handleAddRoundApp ([] :: rat player list) = []
   \<and> handleAddRound 1000 [\<lparr>pid = ''1'', name = ''A'', scores = [Some (5::rat), Some 3, None]\<rparr>,
                            \<lparr>pid = ''2'', name = ''B'', scores = [Some 1, Some 9, Some 2]\<rparr>]
     = [\<lparr>pid = ''1'', name = ''A'', scores = [Some 5, Some 3, None, None]\<rparr>,
        \<lparr>pid = ''2'', name = ''B'', scores = [Some 1, Some 9, Some 2, None]\<rparr>]
   \<and> numRounds (handleAddRound 1000
        [\<lparr>pid = ''1'', name = ''A'', scores = [Some (5::rat), Some 3, None]\<rparr>,
         \<lparr>pid = ''2'', name = ''B'', scores = [Some 1, Some 9, Some 2]\<rparr>]) = 4"
  using addRound_behaviour [of "[] :: rat player list" 1000]
    addRound_behaviour [of "[\<lparr>pid = ''1'', name = ''A'', scores = [Some (5::rat), Some 3, None]\<rparr>,
                             \<lparr>pid = ''2'', name = ''B'', scores = [Some 1, Some 9, Some 2]\<rparr>]" 1000]
  by (simp add: numRounds_def toString_eval replicate_5)

section \<open>C3: persistence and expiry\<close>

lemma EXPIRY_TIME_value: "EXPIRY_TIME = 36000000"
  by (simp add: EXPIRY_TIME_def)

lemma load_retained:
  "now' - now < EXPIRY_TIME \<Longrightarrow>
   loadSavedData now' (saveData now ps title ls)
     = (Some \<lparr> players = ps, gameTitle = title, timestamp = now \<rparr>, saveData now ps title ls)"
  by (simp add: loadSavedData_def saveData_def)

lemma load_expired:
  "EXPIRY_TIME \<le> now' - now \<Longrightarrow>
   loadSavedData now' (saveData now ps title ls) = (None, (saveData now ps title ls)(STORAGE_KEY := None))"
  by (simp add: loadSavedData_def saveData_def)

text \<open>
  C3. After a save at clock reading \<open>now\<close>, a load at \<open>now'\<close> with
  \<open>now' - now < 36000000\<close> returns the saved record (players, title and timestamp) and leaves
  the storage as it is; with \<open>now' - now \<ge> 36000000\<close> it returns \<^verbatim>\<open>null\<close>, the key is no
  longer in the storage, and the application starts from the empty default (no players,
  title \<^verbatim>\<open>Score Keeper\<close>). The expiry window is 36000000 ms.
\<close>

theorem load_after_save:
  "(now' - now < 36000000 \<longrightarrow>
        loadSavedData now' (saveData now ps title ls)
          = (Some \<lparr> players = ps, gameTitle = title, timestamp = now \<rparr>, saveData now ps title ls))
   \<and> (36000000 \<le> now' - now \<longrightarrow>
        fst (loadSavedData now' (saveData now ps title ls)) = None
        \<and> snd (loadSavedData now' (saveData now ps title ls)) STORAGE_KEY = None
        \<and> snd (loadSavedData now' (saveData now ps title ls)) = ls(STORAGE_KEY := None)
        \<and> initialPlayers (fst (loadSavedData now' (saveData now ps title ls))) = []
        \<and> initialTitle (fst (loadSavedData now' (saveData now ps title ls))) = ''Score Keeper'')"
proof (intro conjI impI)
  assume "now' - now < 36000000"
  then show "loadSavedData now' (saveData now ps title ls)
          = (Some \<lparr> players = ps, gameTitle = title, timestamp = now \<rparr>, saveData now ps title ls)"
    by (simp add: load_retained EXPIRY_TIME_value)
next
  assume "36000000 \<le> now' - now"
  then have e: "loadSavedData now' (saveData now ps title ls)
                  = (None, (saveData now ps title ls)(STORAGE_KEY := None))"
    by (simp add: load_expired EXPIRY_TIME_value)
  show "fst (loadSavedData now' (saveData now ps title ls)) = None" by (simp add: e)
  show "snd (loadSavedData now' (saveData now ps title ls)) STORAGE_KEY = None" by (simp add: e)
  show "snd (loadSavedData now' (saveData now ps title ls)) = ls(STORAGE_KEY := None)"
    unfolding e by (simp add: saveData_def)
  show "initialPlayers (fst (loadSavedData now' (saveData now ps title ls))) = []"
    by (simp add: e initialPlayers_def)
  show "initialTitle (fst (loadSavedData now' (saveData now ps title ls))) = ''Score Keeper''"
    by (simp add: e initialTitle_def)
qed

text \<open>
  The boundary: a record aged one millisecond less than the window is returned, a record
  aged exactly the window or one millisecond more is deleted.
\<close>

theorem load_after_save_witness:
  "loadSavedData (5000 + 36000000 - 1)
       (saveData 5000 [\<lparr>pid = ''1'', name = ''A'', scores = [Some (5::rat), None]\<rparr>] ''Game'' Map.empty)
     = (Some \<lparr> players = [\<lparr>pid = ''1'', name = ''A'', scores = [Some 5, None]\<rparr>],
               gameTitle = ''Game'', timestamp = 5000 \<rparr>,
        saveData 5000 [\<lparr>pid = ''1'', name = ''A'', scores = [Some 5, None]\<rparr>] ''Game'' Map.empty)
   \<and> loadSavedData (5000 + 36000000 + 1)
       (saveData 5000 [\<lparr>pid = ''1'', name = ''A'', scores = [Some (5::rat), None]\<rparr>] ''Game'' Map.empty)
     = (None, Map.empty)
   \<and> loadSavedData (5000 + 36000000)
       (saveData 5000 [\<lparr>pid = ''1'', name = ''A'', scores = [Some (5::rat), None]\<rparr>] ''Game'' Map.empty)
     = (None, Map.empty)"
  using load_after_save [of "5000 + 36000000 - 1" 5000
      "[\<lparr>pid = ''1'', name = ''A'', scores = [Some (5::rat), None]\<rparr>]" "''Game''" Map.empty]
    load_after_save [of "5000 + 36000000 + 1" 5000
      "[\<lparr>pid = ''1'', name = ''A'', scores = [Some (5::rat), None]\<rparr>]" "''Game''" Map.empty]
    load_after_save [of "5000 + 36000000" 5000
      "[\<lparr>pid = ''1'', name = ''A'', scores = [Some (5::rat), None]\<rparr>]" "''Game''" Map.empty]
  by (simp add: prod_eq_iff)

text \<open>
  Two facts beside the claim. A stored text that does not parse gives \<^verbatim>\<open>null\<close> and stays in
  the storage. The application replaces an empty saved title by the default title.
\<close>

lemma load_malformed:
  "ls STORAGE_KEY = Some Malformed \<Longrightarrow> loadSavedData now ls = (None, ls)"
  by (simp add: loadSavedData_def)

lemma initialTitle_empty:
  "initialTitle (Some \<lparr> players = ps, gameTitle = [], timestamp = t \<rparr>) = ''Score Keeper''"
  by (simp add: initialTitle_def)

section \<open>C2: the round-count invariant\<close>

lemma enumerate_above:
  "map snd (filter (\<lambda>(j, _). j \<noteq> n) (enumerate (Suc n) xs)) = xs"
proof -
  have "\<forall>e \<in> set (enumerate (Suc n) xs). (case e of (j, _) \<Rightarrow> j \<noteq> n)"
    by (auto simp: in_set_enumerate_eq)
  then have "filter (\<lambda>(j, _). j \<noteq> n) (enumerate (Suc n) xs) = enumerate (Suc n) xs"
    by (simp add: filter_id_conv)
  then show ?thesis by simp
qed

lemma filter_enumerate_shift:
  "map snd (filter (\<lambda>(j, _). j \<noteq> n + i) (enumerate n xs)) = take i xs @ drop (Suc i) xs"
proof (induction xs arbitrary: n i)
  case Nil
  show ?case by simp
next
  case (Cons x xs)
  show ?case
  proof (cases i)
    case 0
    then show ?thesis by (simp add: enumerate_above)
  next
    case (Suc k)
    have "map snd (filter (\<lambda>(j, _). j \<noteq> Suc n + k) (enumerate (Suc n) xs))
            = take k xs @ drop (Suc k) xs"
      by (rule Cons.IH)
    with Suc show ?thesis by simp
  qed
qed

lemma filterIndex_eq: "filterIndex i xs = take i xs @ drop (Suc i) xs"
  using filter_enumerate_shift[of 0 i xs] by (simp add: filterIndex_def)

lemma length_filterIndex:
  "length (filterIndex i xs) = (if i < length xs then length xs - 1 else length xs)"
  by (auto simp: filterIndex_eq)

lemma roundInvariantI:
  assumes "\<And>p. p \<in> set ps \<Longrightarrow> length (scores p) = L"
  shows "roundInvariant ps"
proof (cases ps)
  case Nil
  then show ?thesis by (simp add: roundInvariant_def)
next
  case (Cons q qs)
  then have "numRounds ps = L" using assms by (simp add: numRounds_def)
  then show ?thesis using assms by (simp add: roundInvariant_def list_all_iff)
qed

lemma roundInvariantD:
  "roundInvariant ps \<Longrightarrow> p \<in> set ps \<Longrightarrow> length (scores p) = numRounds ps"
  by (simp add: roundInvariant_def list_all_iff)

lemma roundInvariant_Nil: "roundInvariant []"
  by (simp add: roundInvariant_def)

lemma handleAddPlayer_invariant:
  assumes "roundInvariant ps"
  shows "roundInvariant (handleAddPlayer now ps)"
proof (rule roundInvariantI)
  fix p assume "p \<in> set (handleAddPlayer now ps)"
  then consider "p \<in> set ps" | "length (scores p) = numRounds ps"
    by (auto simp: handleAddPlayer_def Let_def numRounds_def)
  then show "length (scores p) = numRounds ps"
    using assms by cases (simp_all add: roundInvariantD)
qed

lemma append_slot_invariant:
  assumes "roundInvariant ps"
  shows "roundInvariant (map (\<lambda>p. p\<lparr>scores := scores p @ [None]\<rparr>) ps)"
proof (rule roundInvariantI)
  fix p assume "p \<in> set (map (\<lambda>p. p\<lparr>scores := scores p @ [None]\<rparr>) ps)"
  then obtain q where "q \<in> set ps" "p = q\<lparr>scores := scores q @ [None]\<rparr>" by auto
  then show "length (scores p) = numRounds ps + 1"
    using assms by (simp add: roundInvariantD)
qed

lemma handleAddRound_invariant:
  assumes "roundInvariant ps"
  shows "roundInvariant (handleAddRound now ps)"
proof (cases "ps = []")
  case True
  then show ?thesis by (simp add: handleAddRound_def roundInvariant_def numRounds_def)
next
  case False
  then show ?thesis using assms by (simp add: handleAddRound_def append_slot_invariant)
qed

lemma handleAddRoundApp_invariant:
  "roundInvariant ps \<Longrightarrow> roundInvariant (handleAddRoundApp ps)"
  by (simp add: handleAddRoundApp_def append_slot_invariant roundInvariant_Nil)

lemma handleRemoveRound_invariant:
  assumes "roundInvariant ps"
  shows "roundInvariant (handleRemoveRound confirmed i ps)"
proof (cases confirmed)
  case False
  then show ?thesis using assms by (simp add: handleRemoveRound_def)
next
  case True
  have "roundInvariant (map (\<lambda>p. p\<lparr>scores := filterIndex i (scores p)\<rparr>) ps)"
  proof (rule roundInvariantI)
    fix p assume "p \<in> set (map (\<lambda>p. p\<lparr>scores := filterIndex i (scores p)\<rparr>) ps)"
    then obtain q where "q \<in> set ps" "p = q\<lparr>scores := filterIndex i (scores q)\<rparr>" by auto
    then show "length (scores p) = (if i < numRounds ps then numRounds ps - 1 else numRounds ps)"
      using assms by (simp add: length_filterIndex roundInvariantD)
  qed
  with True show ?thesis by (simp add: handleRemoveRound_def)
qed

lemma handleRemovePlayer_invariant:
  assumes "roundInvariant ps"
  shows "roundInvariant (handleRemovePlayer confirmed ident ps)"
proof (rule roundInvariantI)
  fix p assume "p \<in> set (handleRemovePlayer confirmed ident ps)"
  then have "p \<in> set ps" by (auto simp: handleRemovePlayer_def split: if_splits)
  then show "length (scores p) = numRounds ps" using assms by (rule roundInvariantD[rotated])
qed

lemma handleNameChange_invariant:
  assumes "roundInvariant ps"
  shows "roundInvariant (handleNameChange ident newName ps)"
proof (rule roundInvariantI)
  fix p assume "p \<in> set (handleNameChange ident newName ps)"
  then obtain q where "q \<in> set ps" "scores p = scores q"
    by (auto simp: handleNameChange_def split: if_splits)
  then show "length (scores p) = numRounds ps" using assms by (simp add: roundInvariantD)
qed

lemma handleScoreChange_invariant:
  assumes "roundInvariant ps" and "i < numRounds ps"
  shows "roundInvariant (handleScoreChange ident i sc ps)"
proof (rule roundInvariantI)
  fix p assume "p \<in> set (handleScoreChange ident i sc ps)"
  then obtain q where q: "q \<in> set ps" "scores p = scores q \<or> scores p = assignIndex (scores q) i sc"
    by (auto simp: handleScoreChange_def split: if_splits)
  from q(1) assms have "length (scores q) = numRounds ps" "i < length (scores q)"
    by (simp_all add: roundInvariantD)
  with q(2) show "length (scores p) = numRounds ps" by (auto simp: assignIndex_def)
qed

text \<open>
  Every handler keeps the invariant; a score written at an index below the round count
  included.
\<close>

lemma step_invariant:
  assumes "roundInvariant ps"
    and "\<And>ident i sc. e = ScoreChange ident i sc \<Longrightarrow> i < numRounds ps"
  shows "roundInvariant (step v e ps)"
proof (cases e)
  case (AddRound now)
  then show ?thesis using assms(1)
    by (cases v) (simp_all add: handleAddRound_invariant handleAddRoundApp_invariant)
next
  case (ScoreChange ident i sc)
  then show ?thesis using assms by (simp add: handleScoreChange_invariant)
qed (use assms(1) in \<open>simp_all add: handleAddPlayer_invariant handleRemovePlayer_invariant
      handleNameChange_invariant handleRemoveRound_invariant\<close>)

lemma run_invariant:
  "roundInvariant ps \<Longrightarrow> roundOps v ps evs \<Longrightarrow> roundInvariant (run v ps evs)"
proof (induction evs arbitrary: ps)
  case Nil
  then show ?case by simp
next
  case (Cons e es)
  from Cons.prems(2) have notScore: "\<And>ident i sc. e \<noteq> ScoreChange ident i sc"
    and rest: "roundOps v (step v e ps) es"
    by (auto split: event.splits)
  have "roundInvariant (step v e ps)"
    using Cons.prems(1) notScore by (intro step_invariant) auto
  then have "roundInvariant (run v (step v e ps) es)" using rest by (rule Cons.IH)
  then show ?case by simp
qed

text \<open>
  C2. Start from a ledger in which every player has as many score slots as the ledger has
  rounds (the empty ledger of a new session is one). After any sequence of \<^verbatim>\<open>addPlayer\<close>,
  \<^verbatim>\<open>addRound\<close> and \<^verbatim>\<open>removeRound\<close> events, in either build, with every removed index below
  the round count of the moment, every player of the ledger has exactly \<open>numRounds\<close> score
  slots: the score sequences have one common length, the round count.
\<close>

theorem round_count_invariant:
  "roundInvariant ([] :: 'n player list)
   \<and> (roundInvariant ps \<and> roundOps v ps evs \<longrightarrow>
        roundInvariant (run v ps evs)
        \<and> (\<forall>p \<in> set (run v ps evs). \<forall>q \<in> set (run v ps evs).
              length (scores p) = length (scores q)
              \<and> length (scores q) = numRounds (run v ps evs)))"
proof (intro conjI impI)
  show "roundInvariant ([] :: 'n player list)" by (rule roundInvariant_Nil)
next
  assume a: "roundInvariant ps \<and> roundOps v ps evs"
  then show inv: "roundInvariant (run v ps evs)" by (simp add: run_invariant)
  show "\<forall>p \<in> set (run v ps evs). \<forall>q \<in> set (run v ps evs).
          length (scores p) = length (scores q) \<and> length (scores q) = numRounds (run v ps evs)"
    using inv by (simp add: roundInvariantD)
qed

theorem round_count_invariant_witness:
  "roundInvariant ([] :: rat player list)
   \<and> roundOps SingleFile ([] :: rat player list)
        [AddRound 5, AddPlayer 7, RemoveRound True 2, AddRound 9, RemoveRound True 0]
   \<and> run SingleFile ([] :: rat player list)
        [AddRound 5, AddPlayer 7, RemoveRound True 2, AddRound 9, RemoveRound True 0]
      = [\<lparr>pid = ''5'', name = ''Player 1'', scores = [None, None, None, None]\<rparr>,
         \<lparr>pid = ''7'', name = ''Player 2'', scores = [None, None, None, None]\<rparr>]
   \<and> roundInvariant (run SingleFile ([] :: rat player list)
        [AddRound 5, AddPlayer 7, RemoveRound True 2, AddRound 9, RemoveRound True 0])
   \<and> numRounds (run SingleFile ([] :: rat player list)
        [AddRound 5, AddPlayer 7, RemoveRound True 2, AddRound 9, RemoveRound True 0]) = 4"
proof -
  have r: "run SingleFile ([] :: rat player list)
        [AddRound 5, AddPlayer 7, RemoveRound True 2, AddRound 9, RemoveRound True 0]
      = [\<lparr>pid = ''5'', name = ''Player 1'', scores = [None, None, None, None]\<rparr>,
         \<lparr>pid = ''7'', name = ''Player 2'', scores = [None, None, None, None]\<rparr>]"
    by (simp add: handleAddRound_def handleAddPlayer_def handleRemoveRound_def filterIndex_eq
          toString_eval replicate_5)
  have o: "roundOps SingleFile ([] :: rat player list)
        [AddRound 5, AddPlayer 7, RemoveRound True 2, AddRound 9, RemoveRound True 0]"
    by (simp add: handleAddRound_def handleAddPlayer_def handleRemoveRound_def filterIndex_eq
          toString_eval replicate_5 numRounds_def)
  have n: "roundInvariant ([] :: rat player list)" by (simp add: roundInvariant_def)
  from round_count_invariant [of "[] :: rat player list" SingleFile
        "[AddRound 5, AddPlayer 7, RemoveRound True 2, AddRound 9, RemoveRound True 0]"] n o
  have "roundInvariant (run SingleFile ([] :: rat player list)
        [AddRound 5, AddPlayer 7, RemoveRound True 2, AddRound 9, RemoveRound True 0])"
    by blast
  with r o n show ?thesis by (simp add: numRounds_def)
qed

section \<open>C7: cumulative progression\<close>

lemma sumPresent_Cons [simp]:
  "sumPresent [] = 0"
  "sumPresent (None # ss) = sumPresent ss"
  "sumPresent (Some v # ss) = v + sumPresent ss"
  by (simp_all add: sumPresent_def)

lemma upt_length_Cons: "[0..<length (s # ss)] = 0 # map Suc [0..<length ss]"
  by (simp add: upt_conv_Cons map_Suc_upt del: upt_Suc)

lemma present_indices_Cons:
  "filter (\<lambda>r. (s # ss) ! r \<noteq> None) [0..<length (s # ss)]
     = (if s \<noteq> None then [0] else []) @ map Suc (filter (\<lambda>r. ss ! r \<noteq> None) [0..<length ss])"
  by (simp only: upt_length_Cons) (simp add: filter_map comp_def)

text \<open>The loop, started at round index \<open>k\<close> with running total \<open>rt\<close> and the points \<open>pts\<close>.\<close>

lemma forEachScore_eq:
  "forEachScore ss k rt pts
     = pts @ map (\<lambda>r. (k + r + 1, rt + sumPresent (take (r + 1) ss)))
               (filter (\<lambda>r. ss ! r \<noteq> None) [0..<length ss])"
proof (induction ss k rt pts rule: forEachScore.induct)
  case (1 rIdx runningTotal points)
  show ?case by simp
next
  case (2 ss rIdx runningTotal points)
  show ?case
    by (simp only: forEachScore.simps "2.IH" present_indices_Cons)
       (simp add: comp_def)
next
  case (3 s ss rIdx runningTotal points)
  show ?case
    by (simp only: forEachScore.simps "3.IH" present_indices_Cons)
       (simp add: comp_def add.assoc)
qed

lemma linePoints_eq: "linePoints ss = progression ss"
  by (simp add: linePoints_def progression_def forEachScore_eq)

lemma chartData_points: "map points (chartData ps) = map (\<lambda>p. linePoints (scores p)) ps"
proof -
  have "map (\<lambda>x. linePoints (scores (snd x))) (enumerate 0 ps)
          = map (\<lambda>p. linePoints (scores p)) (map snd (enumerate 0 ps))"
    by (simp only: map_map comp_def)
  also have "\<dots> = map (\<lambda>p. linePoints (scores p)) ps"
    by (simp only: map_snd_enumerate)
  finally show ?thesis
    by (cases "ps = []") (simp_all add: chartData_def comp_def case_prod_beta)
qed

text \<open>
  C7. For every score sequence the points of the chart line are the point \<open>(0, 0)\<close>
  followed, for each round index \<open>r\<close> (0-based, in increasing order) whose score is
  present, by the pair of \<open>r + 1\<close> and the sum of the present scores up to and including
  \<open>r\<close>; a round with an absent score gives no point. This holds for the line of every
  player of the chart. For the scores 5, absent, 3 the points are (0,0), (1,5), (3,8).
\<close>

theorem cumulative_progression:
  "linePoints ss
     = (0, 0) # map (\<lambda>r. (r + 1, sumPresent (take (r + 1) ss)))
                  (filter (\<lambda>r. ss ! r \<noteq> None) [0..<length ss])
   \<and> map points (chartData ps) = map (\<lambda>p. progression (scores p)) ps
   \<and> linePoints [Some 5, None, Some 3] = [(0, 0), (1, 5), (3, 8)]"
proof (intro conjI)
  show "linePoints ss
     = (0, 0) # map (\<lambda>r. (r + 1, sumPresent (take (r + 1) ss)))
                  (filter (\<lambda>r. ss ! r \<noteq> None) [0..<length ss])"
    using linePoints_eq[of ss] by (simp add: progression_def)
  show "map points (chartData ps) = map (\<lambda>p. progression (scores p)) ps"
    by (simp add: chartData_points linePoints_eq)
  show "linePoints [Some 5, None, Some 3] = [(0, 0), (1, 5), (3, 8)]"
    by (simp add: linePoints_def)
qed

section \<open>C4: the ranking\<close>

lemma compareTotals_le0: "compareTotals a b \<le> 0 \<longleftrightarrow> getTotal b \<le> getTotal a"
  by (simp add: compareTotals_def getTotal_def)

lemma mset_insertBy: "mset (insertBy cmp x xs) = add_mset x (mset xs)"
  by (induction xs) simp_all

lemma sortBy_Cons: "sortBy cmp (x # xs) = insertBy cmp x (sortBy cmp xs)"
  by (simp add: sortBy_def)

lemma sortBy_Nil: "sortBy cmp [] = []"
  by (simp add: sortBy_def)

lemma mset_sortBy: "mset (sortBy cmp xs) = mset xs"
  by (induction xs) (simp_all add: sortBy_Cons sortBy_Nil mset_insertBy)

lemma set_insertBy: "set (insertBy cmp x xs) = insert x (set xs)"
  using mset_insertBy[of cmp x xs] by (metis set_mset_add_mset_insert set_mset_mset)

lemma sorted_insertBy:
  "sorted_wrt (\<lambda>a b. getTotal b \<le> getTotal a) xs \<Longrightarrow>
   sorted_wrt (\<lambda>a b. getTotal b \<le> getTotal a) (insertBy compareTotals x xs)"
proof (induction xs)
  case Nil
  show ?case by simp
next
  case (Cons y ys)
  show ?case
  proof (cases "compareTotals x y \<le> 0")
    case True
    then have "getTotal y \<le> getTotal x" by (simp add: compareTotals_le0)
    with Cons.prems True show ?thesis by fastforce
  next
    case False
    then have "getTotal x \<le> getTotal y" by (simp add: compareTotals_le0)
    with Cons False show ?thesis by (auto simp: set_insertBy)
  qed
qed

lemma sorted_sortedPlayers:
  "sorted_wrt (\<lambda>a b. getTotal b \<le> getTotal a) (sortedPlayers ps)"
  unfolding sortedPlayers_def
  by (induction ps) (simp_all add: sortBy_Cons sortBy_Nil sorted_insertBy)

lemma filter_insertBy:
  "filter (\<lambda>p. getTotal p = t) (insertBy compareTotals x xs)
     = (if getTotal x = t then x # filter (\<lambda>p. getTotal p = t) xs
        else filter (\<lambda>p. getTotal p = t) xs)"
proof (induction xs)
  case Nil
  show ?case by simp
next
  case (Cons y ys)
  show ?case
  proof (cases "compareTotals x y \<le> 0")
    case True
    then show ?thesis by simp
  next
    case False
    then have "getTotal x < getTotal y" by (simp add: compareTotals_le0)
    with False Cons show ?thesis by auto
  qed
qed

lemma stable_sortedPlayers:
  "filter (\<lambda>p. getTotal p = t) (sortedPlayers ps) = filter (\<lambda>p. getTotal p = t) ps"
  unfolding sortedPlayers_def
  by (induction ps) (simp_all add: sortBy_Cons sortBy_Nil filter_insertBy)

lemma mset_sortedPlayers: "mset (sortedPlayers ps) = mset ps"
  by (simp add: sortedPlayers_def mset_sortBy)

text \<open>
  C4. For every list of players the ranking holds the same players, each as often as
  the list does, in descending order of total: whoever stands earlier has a total at least
  as large, so a player with a strictly greater total stands before one with a smaller
  total. The sort is stable: for every value \<open>t\<close>, the players with total \<open>t\<close> appear in
  the ranking in the order they have in the list.
\<close>

theorem ranking_stable_descending:
  "mset (sortedPlayers ps) = mset ps
   \<and> sorted_wrt (\<lambda>a b. getTotal a \<ge> getTotal b) (sortedPlayers ps)
   \<and> (\<forall>i j. i < length ps \<and> j < length ps
          \<and> getTotal (sortedPlayers ps ! i) > getTotal (sortedPlayers ps ! j) \<longrightarrow> i < j)
   \<and> (\<forall>t. filter (\<lambda>p. getTotal p = t) (sortedPlayers ps) = filter (\<lambda>p. getTotal p = t) ps)"
proof (intro conjI allI impI)
  show "mset (sortedPlayers ps) = mset ps" by (rule mset_sortedPlayers)
  show srt: "sorted_wrt (\<lambda>a b. getTotal a \<ge> getTotal b) (sortedPlayers ps)"
    by (rule sorted_sortedPlayers)
  show "filter (\<lambda>p. getTotal p = t) (sortedPlayers ps) = filter (\<lambda>p. getTotal p = t) ps" for t
    by (rule stable_sortedPlayers)
  have len: "length (sortedPlayers ps) = length ps"
    using mset_sortedPlayers[of ps] by (metis size_mset)
  show "i < j"
    if h: "i < length ps \<and> j < length ps
           \<and> getTotal (sortedPlayers ps ! i) > getTotal (sortedPlayers ps ! j)" for i j
  proof (rule ccontr)
    assume "\<not> i < j"
    then consider "i = j" | "j < i" by linarith
    then show False
    proof cases
      case 1
      with h show False by simp
    next
      case 2
      with h len have "getTotal (sortedPlayers ps ! j) \<ge> getTotal (sortedPlayers ps ! i)"
        using srt by (simp add: sorted_wrt_iff_nth_less)
      with h show False by simp
    qed
  qed
qed

text \<open>
  Scenario A of the specification, with a third player tied with the first: totals 8, 12
  and 8 give the ranking second, first, third.
\<close>

theorem ranking_stable_descending_witness:
  "sortedPlayers [\<lparr>pid = ''1'', name = ''A'', scores = [Some 5, Some 3, None]\<rparr>,
                  \<lparr>pid = ''2'', name = ''B'', scores = [Some 1, Some 9, Some 2]\<rparr>,
                  \<lparr>pid = ''3'', name = ''C'', scores = [None, Some 8, None]\<rparr>]
     = [\<lparr>pid = ''2'', name = ''B'', scores = [Some 1, Some 9, Some 2]\<rparr>,
        \<lparr>pid = ''1'', name = ''A'', scores = [Some 5, Some 3, None]\<rparr>,
        \<lparr>pid = ''3'', name = ''C'', scores = [None, Some 8, None]\<rparr>]
   \<and> filter (\<lambda>p. getTotal p = 8)
        (sortedPlayers [\<lparr>pid = ''1'', name = ''A'', scores = [Some 5, Some 3, None]\<rparr>,
                        \<lparr>pid = ''2'', name = ''B'', scores = [Some 1, Some 9, Some 2]\<rparr>,
                        \<lparr>pid = ''3'', name = ''C'', scores = [None, Some 8, None]\<rparr>])
     = [\<lparr>pid = ''1'', name = ''A'', scores = [Some 5, Some 3, None]\<rparr>,
        \<lparr>pid = ''3'', name = ''C'', scores = [None, Some 8, None]\<rparr>]"
proof -
  have "sortedPlayers [\<lparr>pid = ''1'', name = ''A'', scores = [Some 5, Some 3, None]\<rparr>,
                  \<lparr>pid = ''2'', name = ''B'', scores = [Some 1, Some 9, Some 2]\<rparr>,
                  \<lparr>pid = ''3'', name = ''C'', scores = [None, Some 8, None]\<rparr>]
     = [\<lparr>pid = ''2'', name = ''B'', scores = [Some 1, Some 9, Some 2]\<rparr>,
        \<lparr>pid = ''1'', name = ''A'', scores = [Some 5, Some 3, None]\<rparr>,
        \<lparr>pid = ''3'', name = ''C'', scores = [None, Some 8, None]\<rparr>]"
    by (simp add: sortedPlayers_def sortBy_def compareTotals_def)
  moreover have "filter (\<lambda>p. getTotal p = 8)
        (sortedPlayers [\<lparr>pid = ''1'', name = ''A'', scores = [Some 5, Some 3, None]\<rparr>,
                        \<lparr>pid = ''2'', name = ''B'', scores = [Some 1, Some 9, Some 2]\<rparr>,
                        \<lparr>pid = ''3'', name = ''C'', scores = [None, Some 8, None]\<rparr>])
     = filter (\<lambda>p. getTotal p = 8)
         [\<lparr>pid = ''1'', name = ''A'', scores = [Some 5, Some 3, None]\<rparr>,
          \<lparr>pid = ''2'', name = ''B'', scores = [Some 1, Some 9, Some 2]\<rparr>,
          \<lparr>pid = ''3'', name = ''C'', scores = [None, Some 8, None]\<rparr>]"
    using ranking_stable_descending
      [of "[\<lparr>pid = ''1'', name = ''A'', scores = [Some 5, Some 3, None]\<rparr>,
            \<lparr>pid = ''2'', name = ''B'', scores = [Some 1, Some 9, Some 2]\<rparr>,
            \<lparr>pid = ''3'', name = ''C'', scores = [None, Some 8, None]\<rparr>]"]
    by blast
  ultimately show ?thesis by (simp add: getTotal_def)
qed

section \<open>C5: the winner flag\<close>

lemma foldl_max_eq_Max: "foldl max (a::rat) xs = Max (set (a # xs))"
proof -
  have "(\<lambda>x s. max s x) = (max :: rat \<Rightarrow> rat \<Rightarrow> rat)"
    by (intro ext) (simp add: max.commute)
  then show ?thesis by (simp only: foldl_conv_fold Max.set_eq_fold)
qed

lemma map_snd_playerTotals: "map snd (playerTotals ps) = map getTotal ps"
  by (simp add: playerTotals_def getTotal_def comp_def)

lemma highestScore_eq_Max:
  assumes "ps \<noteq> []"
  shows "highestScore ps = Max (getTotal ` set ps)"
proof -
  from assms obtain q qs where ps: "ps = q # qs" by (cases ps) auto
  have "highestScore ps = foldl max (getTotal q) (map getTotal qs)"
    by (simp add: highestScore_def map_snd_playerTotals ps)
  also have "\<dots> = Max (set (getTotal q # map getTotal qs))"
    by (rule foldl_max_eq_Max)
  finally show ?thesis by (simp add: ps)
qed

lemma isWinner_iff:
  assumes "distinct (map pid ps)" and "p \<in> set ps"
  shows "isWinner ps p \<longleftrightarrow> getTotal p > 0 \<and> getTotal p = Max (getTotal ` set ps)"
proof -
  from assms(2) have "ps \<noteq> []" by auto
  then have "highestScore ps = Max (getTotal ` set ps)" by (rule highestScore_eq_Max)
  moreover have "totalScore ps p = getTotal p"
    using assms by (simp add: totalScore_distinct getTotal_eq)
  ultimately show ?thesis by (simp add: isWinner_def)
qed

lemma set_sortedPlayers: "set (sortedPlayers ps) = set ps"
  using mset_sortedPlayers[of ps] by (metis set_mset_mset)

lemma length_sortedPlayers: "length (sortedPlayers ps) = length ps"
  using mset_sortedPlayers[of ps] by (metis size_mset)

lemma distinct_pid_sortedPlayers:
  "distinct (map pid (sortedPlayers ps)) \<longleftrightarrow> distinct (map pid ps)"
proof -
  have "mset (map pid (sortedPlayers ps)) = mset (map pid ps)"
    by (simp add: mset_sortedPlayers)
  then show ?thesis by (rule mset_eq_imp_distinct_iff)
qed

text \<open>The head of the ranking has the largest total.\<close>

lemma top_of_ranking:
  assumes "ps \<noteq> []"
  shows "getTotal (sortedPlayers ps ! 0) = Max (getTotal ` set ps)"
proof -
  from assms have "sortedPlayers ps \<noteq> []"
    using length_sortedPlayers[of ps] by auto
  then obtain x xs where r: "sortedPlayers ps = x # xs" by (cases "sortedPlayers ps") auto
  have "sorted_wrt (\<lambda>a b. getTotal b \<le> getTotal a) (x # xs)"
    using sorted_sortedPlayers[of ps] by (simp add: r)
  then have above: "\<forall>y \<in> set (x # xs). getTotal y \<le> getTotal x" by auto
  have s: "set ps = set (x # xs)" using set_sortedPlayers[of ps] by (simp add: r)
  have "Max (getTotal ` set ps) = getTotal x"
  proof (rule Max_eqI)
    show "finite (getTotal ` set ps)" by simp
    show "\<And>y. y \<in> getTotal ` set ps \<Longrightarrow> y \<le> getTotal x" using above s by auto
    show "getTotal x \<in> getTotal ` set ps" using s by auto
  qed
  then show ?thesis by (simp add: r)
qed

text \<open>It is the earliest player of the list among those with the largest total.\<close>

lemma top_of_ranking_is_first:
  assumes "ps \<noteq> []"
  shows "sortedPlayers ps ! 0 = hd (filter (\<lambda>q. getTotal q = Max (getTotal ` set ps)) ps)"
proof -
  from assms have "sortedPlayers ps \<noteq> []"
    using length_sortedPlayers[of ps] by auto
  then obtain x xs where r: "sortedPlayers ps = x # xs" by (cases "sortedPlayers ps") auto
  have top: "getTotal x = Max (getTotal ` set ps)"
    using top_of_ranking[OF assms] by (simp add: r)
  have "filter (\<lambda>q. getTotal q = Max (getTotal ` set ps)) ps
          = filter (\<lambda>q. getTotal q = Max (getTotal ` set ps)) (x # xs)"
    using stable_sortedPlayers[of "Max (getTotal ` set ps)" ps] by (simp only: r)
  then have "hd (filter (\<lambda>q. getTotal q = Max (getTotal ` set ps)) ps) = x"
    using top by simp
  then show ?thesis by (simp add: r)
qed

lemma isWinnerRank_iff:
  assumes "i < length ps"
  shows "isWinnerRank i (sortedPlayers ps ! i) \<longleftrightarrow> i = 0 \<and> Max (getTotal ` set ps) > 0"
proof -
  from assms have "ps \<noteq> []" by auto
  then have "getTotal (sortedPlayers ps ! 0) = Max (getTotal ` set ps)" by (rule top_of_ranking)
  then show ?thesis by (auto simp: isWinnerRank_def getTotal_def)
qed

text \<open>
  The claim as it is written fails on the single-file variants: of two players tied at the
  positive maximum 5, the one at rank 1 is not flagged.
\<close>

theorem winner_tie_counterexample:
  "\<not> isWinnerRank 1
        (sortedPlayers [\<lparr>pid = ''1'', name = ''A'', scores = [Some 5]\<rparr>,
                        \<lparr>pid = ''2'', name = ''B'', scores = [Some 2, Some 3]\<rparr>] ! 1)
   \<and> getTotal (sortedPlayers [\<lparr>pid = ''1'', name = ''A'', scores = [Some 5]\<rparr>,
                               \<lparr>pid = ''2'', name = ''B'', scores = [Some 2, Some 3]\<rparr>] ! 1) = 5
   \<and> Max (getTotal ` set [\<lparr>pid = ''1'', name = ''A'', scores = [Some 5]\<rparr>,
                            \<lparr>pid = ''2'', name = ''B'', scores = [Some 2, Some 3]\<rparr>]) = 5"
  by (simp add: isWinnerRank_def sortedPlayers_def sortBy_def compareTotals_def getTotal_def)

text \<open>
  C5, amended. Table component: for a list of players with pairwise different identifiers,
  a player of the displayed ranking is flagged exactly when the player's total is positive
  and equals the maximum total of all players; so every player tied for a positive maximum
  is flagged. Single-file variants: the row at index \<open>i\<close> of the ranking is flagged exactly
  when \<open>i = 0\<close> and the maximum total is positive; the player of that row has the maximum
  total and is the earliest player of the list among those who have it.
\<close>

theorem winner_flag:
  "(distinct (map pid ps) \<and> p \<in> set ps \<longrightarrow>
      (isWinner (sortedPlayers ps) p \<longleftrightarrow> getTotal p > 0 \<and> getTotal p = Max (getTotal ` set ps)))
   \<and> (i < length ps \<longrightarrow>
      (isWinnerRank i (sortedPlayers ps ! i) \<longleftrightarrow> i = 0 \<and> Max (getTotal ` set ps) > 0))
   \<and> (ps \<noteq> [] \<longrightarrow>
      getTotal (sortedPlayers ps ! 0) = Max (getTotal ` set ps)
      \<and> sortedPlayers ps ! 0 = hd (filter (\<lambda>q. getTotal q = Max (getTotal ` set ps)) ps))"
proof (intro conjI impI)
  assume a: "distinct (map pid ps) \<and> p \<in> set ps"
  then have "distinct (map pid (sortedPlayers ps))" "p \<in> set (sortedPlayers ps)"
    by (simp_all add: distinct_pid_sortedPlayers set_sortedPlayers)
  then have "isWinner (sortedPlayers ps) p
      \<longleftrightarrow> getTotal p > 0 \<and> getTotal p = Max (getTotal ` set (sortedPlayers ps))"
    by (rule isWinner_iff)
  then show "isWinner (sortedPlayers ps) p
      \<longleftrightarrow> getTotal p > 0 \<and> getTotal p = Max (getTotal ` set ps)"
    by (simp only: set_sortedPlayers)
next
  assume "i < length ps"
  then show "isWinnerRank i (sortedPlayers ps ! i) \<longleftrightarrow> i = 0 \<and> Max (getTotal ` set ps) > 0"
    by (rule isWinnerRank_iff)
next
  assume "ps \<noteq> []"
  then show "getTotal (sortedPlayers ps ! 0) = Max (getTotal ` set ps)" by (rule top_of_ranking)
next
  assume "ps \<noteq> []"
  then show "sortedPlayers ps ! 0 = hd (filter (\<lambda>q. getTotal q = Max (getTotal ` set ps)) ps)"
    by (rule top_of_ranking_is_first)
qed

theorem winner_flag_witness:
  "isWinner (sortedPlayers [\<lparr>pid = ''1'', name = ''A'', scores = [Some 5]\<rparr>,
                            \<lparr>pid = ''2'', name = ''B'', scores = [Some 2, Some 3]\<rparr>])
            \<lparr>pid = ''2'', name = ''B'', scores = [Some 2, Some 3]\<rparr>
   \<and> isWinnerRank 0 (sortedPlayers [\<lparr>pid = ''1'', name = ''A'', scores = [Some 5]\<rparr>,
                                     \<lparr>pid = ''2'', name = ''B'', scores = [Some 2, Some 3]\<rparr>] ! 0)
   \<and> sortedPlayers [\<lparr>pid = ''1'', name = ''A'', scores = [Some 5]\<rparr>,
                     \<lparr>pid = ''2'', name = ''B'', scores = [Some 2, Some 3]\<rparr>] ! 0
       = \<lparr>pid = ''1'', name = ''A'', scores = [Some 5]\<rparr>"
proof -
  have m: "Max (getTotal ` set [\<lparr>pid = ''1'', name = ''A'', scores = [Some 5]\<rparr>,
                                \<lparr>pid = ''2'', name = ''B'', scores = [Some 2, Some 3]\<rparr>]) = 5"
    by (simp add: getTotal_def)
  have t: "getTotal \<lparr>pid = ''2'', name = ''B'', scores = [Some 2, Some 3]\<rparr> = 5"
          "getTotal \<lparr>pid = ''1'', name = ''A'', scores = [Some 5]\<rparr> = 5"
    by (simp_all add: getTotal_def)
  show ?thesis
    using winner_flag [of "[\<lparr>pid = ''1'', name = ''A'', scores = [Some 5]\<rparr>,
                            \<lparr>pid = ''2'', name = ''B'', scores = [Some 2, Some 3]\<rparr>]"
                          "\<lparr>pid = ''2'', name = ''B'', scores = [Some 2, Some 3]\<rparr>" 0]
    by (simp add: m t isWinnerRank_def)
qed

section \<open>C9: identifiers\<close>

subsection \<open>The decimal rendering is injective\<close>

lemma digitsVal_snoc: "digitsVal (ds @ [c]) = 10 * digitsVal ds + digitVal c"
  by (simp add: digitsVal_def)

lemma digitsVal_natStr: "digitsVal (units (natStr n)) = n"
proof (induction n rule: natStr.induct)
  case (1 n)
  show ?case
  proof (cases "n < 10")
    case True
    then show ?thesis
      by (subst natStr.simps) (simp add: units_def digitsVal_def digitVal_digitChar)
  next
    case False
    with 1 have "digitsVal (units (natStr (n div 10))) = n div 10" by simp
    then have "digitsVal (map of_char (natStr (n div 10))) = n div 10" by (simp add: units_def)
    with False show ?thesis
      by (subst natStr.simps) (simp add: units_def digitsVal_snoc digitVal_digitChar)
  qed
qed

lemma natStr_digits: "c \<in> set (natStr n) \<Longrightarrow> isDigit (of_char c)"
proof (induction n rule: natStr.induct)
  case (1 n)
  show ?case
  proof (cases "n < 10")
    case True
    with "1.prems" show ?thesis
      by (subst (asm) natStr.simps) (simp add: isDigit_digitChar)
  next
    case False
    from "1.prems" False have "c \<in> set (natStr (n div 10)) \<or> c = digitChar (n mod 10)"
      by (subst (asm) natStr.simps) auto
    with False "1.IH" show ?thesis by (auto simp: isDigit_digitChar)
  qed
qed

lemma natStr_not_Nil: "natStr n \<noteq> []"
  by (subst natStr.simps) simp

lemma natStr_inject: "natStr m = natStr n \<Longrightarrow> m = n"
  by (metis digitsVal_natStr)

lemma hd_natStr_digit: "isDigit (of_char (hd (natStr n)))"
  using natStr_digits[of "hd (natStr n)" n] natStr_not_Nil[of n] by simp

lemma minus_not_digit: "\<not> isDigit (of_char (CHR ''-''))"
  by (simp add: isDigit_def)

lemma toString_inject: "toString a = toString b \<Longrightarrow> a = b"
proof -
  assume eq: "toString a = toString b"
  have neg_pos: False if "x < 0" "\<not> y < 0" "toString x = toString y" for x y
  proof -
    from that have "CHR ''-'' # natStr (nat (- x)) = natStr (nat y)" by (simp add: toString_def)
    then have "hd (natStr (nat y)) = CHR ''-''" by (metis list.sel(1))
    with hd_natStr_digit[of "nat y"] minus_not_digit show False by simp
  qed
  consider "a < 0" "b < 0" | "a < 0" "\<not> b < 0" | "\<not> a < 0" "b < 0" | "\<not> a < 0" "\<not> b < 0"
    by blast
  then show "a = b"
  proof cases
    case 1
    with eq have "natStr (nat (- a)) = natStr (nat (- b))" by (simp add: toString_def)
    then have "nat (- a) = nat (- b)" by (rule natStr_inject)
    with 1 show ?thesis by simp
  next
    case 2
    with eq neg_pos show ?thesis by blast
  next
    case 3
    with eq neg_pos[of b a] show ?thesis by simp
  next
    case 4
    with eq have "natStr (nat a) = natStr (nat b)" by (simp add: toString_def)
    then have "nat a = nat b" by (rule natStr_inject)
    with 4 show ?thesis by simp
  qed
qed

subsection \<open>Freshness and the clock\<close>

lemma pid_handleAddPlayer: "map pid (handleAddPlayer now ps) = map pid ps @ [toString now]"
  by (simp add: handleAddPlayer_def Let_def)

lemma pid_handleRemovePlayer:
  "set (map pid (handleRemovePlayer confirmed ident ps)) \<subseteq> set (map pid ps)"
  by (auto simp: handleRemovePlayer_def)

lemma toString_eq_iff: "toString a = toString b \<longleftrightarrow> a = b"
  using toString_inject by blast

text \<open>
  Sufficient: pairwise different readings, none of which renders to an identifier that is
  in the ledger or was assigned before.
\<close>

lemma freshRun_sufficient:
  assumes "playerOps evs"
    and "distinct (addTimes evs)"
    and "\<forall>t \<in> set (addTimes evs). toString t \<notin> set (map pid ps) \<union> set used"
  shows "freshRun v ps used evs"
  using assms
proof (induction evs arbitrary: ps used)
  case Nil
  show ?case by simp
next
  case (Cons e es)
  show ?case
  proof (cases e)
    case (AddPlayer now)
    have fresh: "toString now \<notin> set (map pid ps)" "toString now \<notin> set used"
      using Cons.prems(3) by (simp_all add: AddPlayer)
    have "freshRun v (step v (AddPlayer now) ps) (toString now # used) es"
    proof (rule Cons.IH)
      show "playerOps es" using Cons.prems(1) by (simp add: AddPlayer)
      show "distinct (addTimes es)" using Cons.prems(2) by (simp add: AddPlayer)
      show "\<forall>t \<in> set (addTimes es).
              toString t \<notin> set (map pid (step v (AddPlayer now) ps)) \<union> set (toString now # used)"
      proof
        fix t assume t: "t \<in> set (addTimes es)"
        with Cons.prems(2) have "t \<noteq> now" by (auto simp: AddPlayer)
        then have "toString t \<noteq> toString now" by (simp add: toString_eq_iff)
        moreover from t Cons.prems(3) have "toString t \<notin> set (map pid ps) \<union> set used"
          by (simp add: AddPlayer)
        ultimately show "toString t \<notin> set (map pid (step v (AddPlayer now) ps))
                            \<union> set (toString now # used)"
          by (simp add: pid_handleAddPlayer)
      qed
    qed
    with fresh show ?thesis by (simp add: AddPlayer)
  next
    case (RemovePlayer confirmed ident)
    have "freshRun v (step v (RemovePlayer confirmed ident) ps) used es"
    proof (rule Cons.IH)
      show "playerOps es" using Cons.prems(1) by (simp add: RemovePlayer)
      show "distinct (addTimes es)" using Cons.prems(2) by (simp add: RemovePlayer)
      show "\<forall>t \<in> set (addTimes es).
              toString t \<notin> set (map pid (step v (RemovePlayer confirmed ident) ps)) \<union> set used"
      proof
        fix t assume "t \<in> set (addTimes es)"
        with Cons.prems(3) have "toString t \<notin> set (map pid ps) \<union> set used"
          by (simp add: RemovePlayer)
        with pid_handleRemovePlayer[of confirmed ident ps]
        show "toString t \<notin> set (map pid (step v (RemovePlayer confirmed ident) ps)) \<union> set used"
          by (simp only: step.simps) blast
      qed
    qed
    then show ?thesis by (simp add: RemovePlayer)
  next
    case (NameChange x y)
    with Cons.prems(1) show ?thesis by simp
  next
    case (ScoreChange x y z)
    with Cons.prems(1) show ?thesis by simp
  next
    case (AddRound x)
    with Cons.prems(1) show ?thesis by simp
  next
    case (RemoveRound x y)
    with Cons.prems(1) show ?thesis by simp
  qed
qed

text \<open>Necessary: a fresh session never reads the clock twice at the same value.\<close>

lemma freshRun_necessary:
  "freshRun v ps used evs \<Longrightarrow>
   distinct (addTimes evs) \<and> (\<forall>t \<in> set (addTimes evs). toString t \<notin> set used)"
proof (induction v ps used evs rule: freshRun.induct)
  case (1 v ps used)
  show ?case by simp
next
  case (2 v ps used now es)
  from "2.prems" have now: "toString now \<notin> set used"
    and rest: "freshRun v (step v (AddPlayer now) ps) (toString now # used) es"
    by simp_all
  from "2.IH"[OF rest] have d: "distinct (addTimes es)"
    and u: "\<forall>t \<in> set (addTimes es). toString t \<notin> set (toString now # used)"
    by simp_all
  from u have "now \<notin> set (addTimes es)" by auto
  with d u now show ?case by simp
next
  case (3 v ps used confirmed ident es)
  then show ?case by simp
qed simp_all

text \<open>A session of fresh assignments keeps the identifiers of the ledger pairwise different.\<close>

lemma freshRun_distinct:
  "freshRun v ps used evs \<Longrightarrow> distinct (map pid ps) \<Longrightarrow> distinct (map pid (run v ps evs))"
proof (induction v ps used evs rule: freshRun.induct)
  case (1 v ps used)
  then show ?case by simp
next
  case (2 v ps used now es)
  from "2.prems" have "distinct (map pid (step v (AddPlayer now) ps))"
    by (simp add: pid_handleAddPlayer)
  with 2 show ?case by simp
next
  case (3 v ps used confirmed ident es)
  from "3.prems"(2) have "distinct (map pid (step v (RemovePlayer confirmed ident) ps))"
    by (simp add: handleRemovePlayer_def distinct_map_filter)
  with 3 show ?case by simp
qed simp_all

text \<open>
  The claim as it is written fails: the identifier is the rendering of the clock reading,
  so two \<^verbatim>\<open>addPlayer\<close> calls at the same reading assign the same identifier, to a second
  player of the ledger or again after the first was removed.
\<close>

theorem id_reuse_counterexample:
  "\<not> freshRun SingleFile ([] :: rat player list) [] [AddPlayer 1000, AddPlayer 1000]
   \<and> map pid (run SingleFile ([] :: rat player list) [AddPlayer 1000, AddPlayer 1000])
       = [''1000'', ''1000'']
   \<and> \<not> freshRun SingleFile ([] :: rat player list) []
          [AddPlayer 1000, RemovePlayer True ''1000'', AddPlayer 1000]
   \<and> map pid (run SingleFile ([] :: rat player list)
          [AddPlayer 1000, RemovePlayer True ''1000'', AddPlayer 1000]) = [''1000'']"
  by (simp add: pid_handleAddPlayer handleRemovePlayer_def handleAddPlayer_def toString_eval)

text \<open>
  C9, amended. In a session of \<^verbatim>\<open>addPlayer\<close> and \<^verbatim>\<open>removePlayer\<close> events that starts from
  the empty ledger, every identifier assigned by \<^verbatim>\<open>addPlayer\<close> differs from the identifier
  of every player in the ledger at that moment and from every identifier assigned earlier
  in the session exactly when the clock readings of the \<^verbatim>\<open>addPlayer\<close> calls are pairwise
  different. In a session that starts from a restored ledger the same holds when the
  readings are pairwise different and none of them renders to the identifier of a restored
  player; pairwise different identifiers then stay pairwise different.
\<close>

theorem fresh_ids_iff_distinct_clock:
  "playerOps evs \<longrightarrow>
     (freshRun v [] [] evs \<longleftrightarrow> distinct (addTimes evs))
     \<and> (distinct (addTimes evs) \<and> (\<forall>t \<in> set (addTimes evs). toString t \<notin> set (map pid ps))
          \<longrightarrow> freshRun v ps [] evs
              \<and> (distinct (map pid ps) \<longrightarrow> distinct (map pid (run v ps evs))))"
proof (intro impI conjI)
  assume p: "playerOps evs"
  show "freshRun v [] [] evs \<longleftrightarrow> distinct (addTimes evs)"
  proof
    assume "freshRun v [] [] evs"
    then show "distinct (addTimes evs)" using freshRun_necessary by blast
  next
    assume "distinct (addTimes evs)"
    with p show "freshRun v [] [] evs" by (intro freshRun_sufficient) simp_all
  qed
next
  assume p: "playerOps evs"
    and d: "distinct (addTimes evs) \<and> (\<forall>t \<in> set (addTimes evs). toString t \<notin> set (map pid ps))"
  then show f: "freshRun v ps [] evs" by (intro freshRun_sufficient) simp_all
  show "distinct (map pid (run v ps evs))" if "distinct (map pid ps)"
    using f that by (rule freshRun_distinct)
qed

text \<open>
  A session whose clock steps back between two \<^verbatim>\<open>addPlayer\<close> calls, started from one
  restored player that was added at reading 900.
\<close>

theorem fresh_ids_iff_distinct_clock_witness:
  "playerOps ([AddPlayer 1001, RemovePlayer True ''1001'', AddPlayer 1000, AddPlayer 1002] :: rat event list)
   \<and> distinct (addTimes ([AddPlayer 1001, RemovePlayer True ''1001'', AddPlayer 1000, AddPlayer 1002] :: rat event list))
   \<and> freshRun Component [] []
        ([AddPlayer 1001, RemovePlayer True ''1001'', AddPlayer 1000, AddPlayer 1002] :: rat event list)
   \<and> freshRun Component [\<lparr>pid = ''900'', name = ''Player 1'', scores = [Some 4]\<rparr>] []
        ([AddPlayer 1001, RemovePlayer True ''1001'', AddPlayer 1000, AddPlayer 1002] :: rat event list)
   \<and> map pid (run Component [\<lparr>pid = ''900'', name = ''Player 1'', scores = [Some 4]\<rparr>]
        ([AddPlayer 1001, RemovePlayer True ''1001'', AddPlayer 1000, AddPlayer 1002] :: rat event list))
       = [''900'', ''1000'', ''1002'']"
proof -
  have h: "playerOps ([AddPlayer 1001, RemovePlayer True ''1001'', AddPlayer 1000, AddPlayer 1002] :: rat event list)"
    by simp
  have d: "distinct (addTimes ([AddPlayer 1001, RemovePlayer True ''1001'', AddPlayer 1000, AddPlayer 1002] :: rat event list))"
    by simp
  have i: "\<forall>t \<in> set (addTimes ([AddPlayer 1001, RemovePlayer True ''1001'', AddPlayer 1000, AddPlayer 1002] :: rat event list)).
      toString t \<notin> set (map pid [\<lparr>pid = ''900'', name = ''Player 1'', scores = [Some (4::rat)]\<rparr>])"
    by (simp add: toString_eval)
  have r: "map pid (run Component [\<lparr>pid = ''900'', name = ''Player 1'', scores = [Some 4]\<rparr>]
        ([AddPlayer 1001, RemovePlayer True ''1001'', AddPlayer 1000, AddPlayer 1002] :: rat event list))
       = [''900'', ''1000'', ''1002'']"
    by (simp add: pid_handleAddPlayer handleRemovePlayer_def handleAddPlayer_def toString_eval)
  from fresh_ids_iff_distinct_clock
    [of "([AddPlayer 1001, RemovePlayer True ''1001'', AddPlayer 1000, AddPlayer 1002] :: rat event list)"
        Component "[\<lparr>pid = ''900'', name = ''Player 1'', scores = [Some 4]\<rparr>]"] h d i
  have "freshRun Component [] []
        ([AddPlayer 1001, RemovePlayer True ''1001'', AddPlayer 1000, AddPlayer 1002] :: rat event list)
      \<and> freshRun Component [\<lparr>pid = ''900'', name = ''Player 1'', scores = [Some 4]\<rparr>] []
        ([AddPlayer 1001, RemovePlayer True ''1001'', AddPlayer 1000, AddPlayer 1002] :: rat event list)"
    by blast
  with h d r show ?thesis by blast
qed

section \<open>C8: score cells\<close>

subsection \<open>Rounding to a double\<close>

lemma log2i_bounds:
  "1 \<le> a \<Longrightarrow> 0 \<le> log2i a \<and> 2 ^ nat (log2i a) \<le> a \<and> a < 2 * 2 ^ nat (log2i a)"
proof (induction a rule: log2i.induct)
  case (1 a)
  show ?case
  proof (cases "a < 2")
    case True
    with "1.prems" have a1: "a = 1" by simp
    have "log2i a = 0" using True by (subst log2i.simps) simp
    then show ?thesis by (simp add: a1)
  next
    case False
    then have h: "1 \<le> a div 2" by simp
    from "1.IH"[OF False h] have l0: "0 \<le> log2i (a div 2)"
      and lo: "2 ^ nat (log2i (a div 2)) \<le> a div 2"
      and hi: "a div 2 < 2 * 2 ^ nat (log2i (a div 2))"
      by simp_all
    have eq: "log2i a = 1 + log2i (a div 2)" using False by (subst log2i.simps) simp
    from l0 have n: "nat (1 + log2i (a div 2)) = Suc (nat (log2i (a div 2)))" by simp
    have "2 * 2 ^ nat (log2i (a div 2)) \<le> a" using lo by linarith
    moreover have "a < 2 * (2 * 2 ^ nat (log2i (a div 2)))" using hi by linarith
    ultimately show ?thesis using l0 by (simp add: eq n)
  qed
qed

lemma log2i_powi:
  assumes "1 \<le> a"
  shows "(2::rat) powi log2i a \<le> of_int a" and "(of_int a :: rat) < 2 powi (log2i a + 1)"
proof -
  from log2i_bounds[OF assms] have l0: "0 \<le> log2i a"
    and lo: "2 ^ nat (log2i a) \<le> a" and hi: "a < 2 * 2 ^ nat (log2i a)"
    by simp_all
  have p: "(2::rat) powi log2i a = 2 ^ nat (log2i a)" using l0 by (simp add: power_int_def)
  have "(of_int (2 ^ nat (log2i a)) :: rat) \<le> of_int a" using lo by (simp only: of_int_le_iff)
  then show "(2::rat) powi log2i a \<le> of_int a" by (simp add: p)
  have "(of_int a :: rat) < of_int (2 * 2 ^ nat (log2i a))" using hi by (simp only: of_int_less_iff)
  then show "(of_int a :: rat) < 2 powi (log2i a + 1)"
    by (simp add: power_int_add p)
qed

lemma powi2_less_cancel: "(2::rat) powi m < 2 powi n \<Longrightarrow> m < n"
proof (rule ccontr)
  assume a: "(2::rat) powi m < 2 powi n" and "\<not> m < n"
  then have "n \<le> m" by simp
  then have "(2::rat) powi n \<le> 2 powi m" by (intro power_int_increasing) simp_all
  with a show False by simp
qed

lemma floor_numeral_div: "\<lfloor>(numeral a :: rat) / numeral b\<rfloor> = numeral a div numeral b"
  using floor_divide_of_int_eq[of "numeral a" "numeral b", where ?'a = rat] by simp

lemma floorLog2_bounds:
  assumes "0 < x"
  shows "2 powi floorLog2 x \<le> x" and "x < 2 powi (floorLog2 x + 1)"
proof -
  obtain a b where q: "quotient_of x = (a, b)" by (cases "quotient_of x")
  then have b: "0 < b" and x: "x = of_int a / of_int b"
    by (simp_all add: quotient_of_denom_pos quotient_of_div)
  from assms b x have a: "0 < a" by (simp add: zero_less_divide_iff)
  define d where "d = log2i a - log2i b"
  have la: "(2::rat) powi log2i a \<le> of_int a" "(of_int a :: rat) < 2 powi (log2i a + 1)"
    using a by (simp_all add: log2i_powi)
  have lb: "(2::rat) powi log2i b \<le> of_int b" "(of_int b :: rat) < 2 powi (log2i b + 1)"
    using b by (simp_all add: log2i_powi)
  have bpos: "(0::rat) < of_int b" using b by simp
  have up: "x < 2 powi (d + 1)"
  proof -
    have "x < 2 powi (log2i a + 1) / of_int b"
      unfolding x using la(2) bpos by (simp add: divide_strict_right_mono)
    also have "\<dots> \<le> 2 powi (log2i a + 1) / 2 powi log2i b"
      using lb(1) bpos by (intro divide_left_mono mult_pos_pos) simp_all
    also have "\<dots> = 2 powi ((log2i a + 1) - log2i b)"
      by (simp add: power_int_diff)
    also have "\<dots> = 2 powi (d + 1)"
      by (simp add: d_def algebra_simps)
    finally show ?thesis .
  qed
  have low: "2 powi (d - 1) \<le> x"
  proof -
    have "(2::rat) powi (d - 1) = 2 powi (log2i a - (log2i b + 1))"
      by (simp add: d_def algebra_simps)
    also have "\<dots> = 2 powi log2i a / 2 powi (log2i b + 1)"
      by (simp add: power_int_diff)
    also have "\<dots> \<le> of_int a / 2 powi (log2i b + 1)"
      using la(1) by (simp add: divide_right_mono)
    also have "\<dots> \<le> of_int a / of_int b"
      using lb(2) a bpos by (intro divide_left_mono mult_pos_pos) simp_all
    finally show ?thesis by (simp add: x)
  qed
  have f: "floorLog2 x = (if 2 powi d \<le> x then d else d - 1)"
    by (simp add: floorLog2_def q d_def Let_def)
  show "2 powi floorLog2 x \<le> x" using low by (simp add: f)
  show "x < 2 powi (floorLog2 x + 1)" using up by (simp add: f)
qed

lemma floorLog2_eqI:
  assumes "2 powi e \<le> x" and "x < 2 powi (e + 1)"
  shows "floorLog2 x = e"
proof -
  have "(0::rat) < 2 powi e" by simp
  with assms(1) have pos: "0 < x" by linarith
  note b = floorLog2_bounds[OF pos]
  have "(2::rat) powi e < 2 powi (floorLog2 x + 1)" using assms(1) b(2) by linarith
  then have 1: "e < floorLog2 x + 1" by (rule powi2_less_cancel)
  have "(2::rat) powi floorLog2 x < 2 powi (e + 1)" using assms(2) b(1) by linarith
  then have 2: "floorLog2 x < e + 1" by (rule powi2_less_cancel)
  from 1 2 show ?thesis by simp
qed

lemma roundHalfEven_of_int: "roundHalfEven (of_int m) = m"
  by (simp add: roundHalfEven_def)

lemma toDouble_safe_integer:
  assumes "\<bar>n\<bar> < 2 ^ 53"
  shows "toDouble (of_int n) = Fin (of_int n)"
proof (cases "n = 0")
  case True
  then show ?thesis by (simp add: toDouble_def)
next
  case False
  define a :: rat where "a = of_int \<bar>n\<bar>"
  define e where "e = floorLog2 a"
  have apos: "0 < a" "1 \<le> a" using False by (simp_all add: a_def)
  have lo: "2 powi e \<le> a" and hi: "a < 2 powi (e + 1)"
    unfolding e_def using floorLog2_bounds[OF apos(1)] by simp_all
  have "(2::rat) powi 0 < 2 powi (e + 1)" using apos(2) hi by simp
  then have "0 < e + 1" by (rule powi2_less_cancel)
  then have e0: "0 \<le> e" by simp
  have "(of_int \<bar>n\<bar> :: rat) < of_int (2 ^ 53)" using assms by (simp only: of_int_less_iff)
  then have a53: "a < 2 ^ 53" by (simp add: a_def)
  then have "(2::rat) powi e < 2 powi 53" using lo by simp
  then have "e < 53" by (rule powi2_less_cancel)
  then have e52: "e \<le> 52" by simp
  define k where "k = nat (52 - e)"
  have q: "(2::rat) powi (e - 52) = 1 / 2 ^ k"
    using e52 by (simp add: k_def power_int_def field_simps)
  have aq: "a / (2 powi (e - 52)) = of_int (\<bar>n\<bar> * 2 ^ k)"
    by (simp add: q a_def)
  have "of_int (roundHalfEven (a / (2 powi (e - 52)))) * 2 powi (e - 52)
          = (of_int (\<bar>n\<bar> * 2 ^ k) :: rat) * (1 / 2 ^ k)"
    by (subst aq) (simp only: roundHalfEven_of_int q)
  also have "\<dots> = a" by (simp add: a_def)
  finally have r: "of_int (roundHalfEven (a / (2 powi (e - 52)))) * 2 powi (e - 52) = a" .
  have m: "max e (- 1022) = e" using e0 by simp
  have abs: "\<bar>(of_int n :: rat)\<bar> = a" by (simp add: a_def)
  have "toDouble (of_int n) = Fin (if (of_int n :: rat) < 0 then - a else a)"
    using False a53 by (simp add: toDouble_def abs e_def[symmetric] m r Let_def)
  then show ?thesis by (simp add: a_def)
qed

lemma toDouble_not_NaN: "toDouble x \<noteq> NaN"
  by (simp add: toDouble_def Let_def)

text \<open>Two roundings: the decimal 3.7 is not a double, and neither is \<open>2\<^sup>5\<^sup>3 + 1\<close>.\<close>

lemma toDouble_37_10: "toDouble (37 / 10) = Fin (4165829655317709 / 1125899906842624)"
proof -
  have f: "floorLog2 (37 / 10) = 1" by (rule floorLog2_eqI) simp_all
  show ?thesis
    by (simp add: toDouble_def f roundHalfEven_def Let_def floor_numeral_div)
qed

lemma toDouble_above_2_53: "toDouble 9007199254740993 = Fin 9007199254740992"
proof -
  have f: "floorLog2 9007199254740993 = 53" by (rule floorLog2_eqI) simp_all
  show ?thesis
    by (simp add: toDouble_def f roundHalfEven_def Let_def floor_numeral_div)
qed

lemma toDouble_half: "toDouble (1 / 2) = Fin (1 / 2)"
proof -
  have f: "floorLog2 (1 / 2) = - 1" by (rule floorLog2_eqI) simp_all
  show ?thesis
    by (simp add: toDouble_def f roundHalfEven_def Let_def floor_numeral_div)
qed

subsection \<open>Reading a valid floating-point number\<close>

lemma digit_not_white: "isDigit c \<Longrightarrow> \<not> isWhiteSpace c"
  by (auto simp: isDigit_def isWhiteSpace_def)

lemma digit_not_sign: "isDigit c \<Longrightarrow> c \<noteq> 45 \<and> c \<noteq> 43 \<and> c \<noteq> 73"
  by (auto simp: isDigit_def)

lemma point_facts: "\<not> isWhiteSpace 46" "\<not> isDigit 46"
  by (simp_all add: isWhiteSpace_def isDigit_def)

lemma letter_facts: "\<not> isDigit 101" "\<not> isDigit 69"
  by (simp_all add: isDigit_def)

lemma takeWhile_digits:
  assumes "list_all isDigit ds" and "rest = [] \<or> \<not> isDigit (hd rest)"
  shows "takeWhile isDigit (ds @ rest) = ds" and "dropWhile isDigit (ds @ rest) = rest"
proof -
  from assms(2) have t: "takeWhile isDigit rest = []" and d: "dropWhile isDigit rest = rest"
    by (cases rest; auto)+
  from assms(1) show "takeWhile isDigit (ds @ rest) = ds"
    by (simp add: takeWhile_append2 t list_all_iff)
  from assms(1) show "dropWhile isDigit (ds @ rest) = rest"
    by (simp add: dropWhile_append2 d list_all_iff)
qed

lemma units_Infinity_hd: "s \<noteq> [] \<Longrightarrow> hd s \<noteq> 73 \<Longrightarrow> take 8 s \<noteq> units ''Infinity''"
  by (cases s) (auto simp: units_def)

text \<open>The exponent of a valid floating-point number is the exponent \<open>parseFloat\<close> reads.\<close>

lemma exponentText_no_digit:
  "validExponent ex \<Longrightarrow> exponentText ex = [] \<or> \<not> isDigit (hd (exponentText ex))"
  by (cases ex) (auto simp: isDigit_def)

lemma exponentText_no_point:
  "validExponent ex \<Longrightarrow> fractionPart ds1 (exponentText ex) = ([], exponentText ex)"
  by (cases ex) (auto simp: fractionPart_def)

lemma exponentPart_exponentText:
  assumes "validExponent ex"
  shows "exponentPart (exponentText ex) = exponentValue ex"
proof (cases ex)
  case NoExponent
  then show ?thesis by (simp add: exponentPart_def)
next
  case (Exponent c es ds3)
  with assms have c: "c = 101 \<or> c = 69" and es: "es = [] \<or> es = [43] \<or> es = [45]"
    and ne: "ds3 \<noteq> []" and ds: "list_all isDigit ds3"
    by simp_all
  have t: "takeWhile isDigit ds3 = ds3"
    using takeWhile_digits(1)[OF ds, of "[]"] by simp
  from ne ds have "isDigit (hd ds3)" by (cases ds3) simp_all
  then have h: "hd ds3 \<noteq> 45" "hd ds3 \<noteq> 43" using digit_not_sign by blast+
  have "stripSign (es @ ds3) = (if es = [45] then - 1 else 1, ds3)"
    using es ne h by (cases ds3) (auto simp: stripSign_def)
  with c show ?thesis
    by (auto simp: Exponent exponentPart_def t ne)
qed

text \<open>The sign and the body that both parsers read from a valid floating-point number.\<close>

lemma read_floatText:
  assumes "validFloat sg ds1 ds2 ex"
  shows "stripSign (dropWhile isWhiteSpace (floatText sg ds1 ds2 ex))
           = (if sg = [45] then - 1 else 1,
              ds1 @ (if ds2 = [] then [] else 46 # ds2) @ exponentText ex)"
proof -
  define body where "body = ds1 @ (if ds2 = [] then [] else 46 # ds2) @ exponentText ex"
  from assms have sg: "sg = [] \<or> sg = [45]" and d1: "list_all isDigit ds1"
    and ne: "ds1 \<noteq> [] \<or> ds2 \<noteq> []"
    by (simp_all add: validFloat_def)
  have hd: "isDigit (hd body) \<or> hd body = 46" and bne: "body \<noteq> []"
    using ne d1 by (cases ds1; simp add: body_def)+
  from hd have w: "\<not> isWhiteSpace (hd body)" and s: "hd body \<noteq> 45" "hd body \<noteq> 43"
    using digit_not_white digit_not_sign point_facts by auto
  have b1: "dropWhile isWhiteSpace body = body" using bne w by (cases body) simp_all
  have b2: "stripSign body = (1, body)" using bne s by (cases body) (simp_all add: stripSign_def)
  have m: "\<not> isWhiteSpace 45" by (simp add: isWhiteSpace_def)
  have "stripSign (dropWhile isWhiteSpace (sg @ body)) = (if sg = [45] then - 1 else 1, body)"
  proof (cases "sg = []")
    case True
    then show ?thesis by (simp add: b1 b2)
  next
    case False
    with sg have "sg = [45]" by simp
    then show ?thesis by (simp add: m stripSign_def)
  qed
  then show ?thesis by (simp add: floatText_def body_def)
qed

lemma after_digits_no_digit:
  assumes "validFloat sg ds1 ds2 ex"
  shows "(if ds2 = [] then [] else 46 # ds2) @ exponentText ex = []
         \<or> \<not> isDigit (hd ((if ds2 = [] then [] else 46 # ds2) @ exponentText ex))"
proof -
  from assms have "validExponent ex" by (simp add: validFloat_def)
  from exponentText_no_digit[OF this] show ?thesis by (auto simp: point_facts)
qed

lemma parseInt_floatText:
  assumes "validFloat sg ds1 ds2 ex"
  shows "parseInt (floatText sg ds1 ds2 ex)
           = (if ds1 = [] then NaN
              else toDouble (of_int ((if sg = [45] then - 1 else 1) * int (digitsVal ds1))))"
proof -
  from assms have d1: "list_all isDigit ds1" by (simp add: validFloat_def)
  have t: "takeWhile isDigit (ds1 @ (if ds2 = [] then [] else 46 # ds2) @ exponentText ex) = ds1"
    using d1 after_digits_no_digit[OF assms] by (rule takeWhile_digits)
  show ?thesis
    by (simp only: parseInt_def read_floatText[OF assms] Let_def case_prod_conv t)
qed

lemma parseFloat_floatText:
  assumes "validFloat sg ds1 ds2 ex"
  shows "parseFloat (floatText sg ds1 ds2 ex) = toDouble (floatValue sg ds1 ds2 ex)"
proof -
  define body where "body = ds1 @ (if ds2 = [] then [] else 46 # ds2) @ exponentText ex"
  from assms have d1: "list_all isDigit ds1" and d2: "list_all isDigit ds2"
    and ne: "ds1 \<noteq> [] \<or> ds2 \<noteq> []" and ve: "validExponent ex"
    by (simp_all add: validFloat_def)
  have r: "stripSign (dropWhile isWhiteSpace (floatText sg ds1 ds2 ex))
             = (if sg = [45] then - 1 else 1, body)"
    unfolding body_def by (rule read_floatText[OF assms])
  have t: "takeWhile isDigit body = ds1"
    "dropWhile isDigit body = (if ds2 = [] then [] else 46 # ds2) @ exponentText ex"
    unfolding body_def using d1 after_digits_no_digit[OF assms] by (rule takeWhile_digits)+
  have "body \<noteq> []" "hd body \<noteq> 73"
    using ne d1 digit_not_sign by (cases ds1; auto simp: body_def)+
  then have i: "take 8 body \<noteq> units ''Infinity''" by (rule units_Infinity_hd)
  have t2: "takeWhile isDigit (ds2 @ exponentText ex) = ds2"
    "dropWhile isDigit (ds2 @ exponentText ex) = exponentText ex"
    using d2 exponentText_no_digit[OF ve] by (rule takeWhile_digits)+
  have f: "fractionPart ds1 ((if ds2 = [] then [] else 46 # ds2) @ exponentText ex)
             = (ds2, exponentText ex)"
  proof (cases "ds2 = []")
    case True
    then show ?thesis by (simp add: exponentText_no_point[OF ve])
  next
    case False
    then show ?thesis by (simp add: fractionPart_def t2)
  qed
  have n: "\<not> (ds1 = [] \<and> ds2 = [])" using ne by simp
  show ?thesis
    by (simp only: parseFloat_def r Let_def case_prod_conv i if_False t f n
          exponentPart_exponentText[OF ve] floatValue_def)
qed

lemma floatText_not_Nil: "validFloat sg ds1 ds2 ex \<Longrightarrow> floatText sg ds1 ds2 ex \<noteq> []"
  by (auto simp: validFloat_def floatText_def)

subsection \<open>The rendering of an integer is a valid floating-point number\<close>

lemma units_toString:
  "units (toString n)
     = floatText (if n < 0 then [45] else []) (units (natStr (nat \<bar>n\<bar>))) [] NoExponent"
  by (simp add: toString_def floatText_def units_def)

lemma valid_toString:
  "validFloat (if n < 0 then [45] else []) (units (natStr (nat \<bar>n\<bar>))) [] NoExponent"
  by (auto simp: validFloat_def units_def list_all_iff natStr_not_Nil dest: natStr_digits)

lemma value_toString:
  "floatValue (if n < 0 then [45] else []) (units (natStr (nat \<bar>n\<bar>))) [] NoExponent = of_int n"
  by (simp add: floatValue_def digitsVal_natStr pow10_def)

lemma parseFloat_toString: "parseFloat (units (toString n)) = toDouble (of_int n)"
  by (simp only: units_toString parseFloat_floatText[OF valid_toString] value_toString)

lemma parseInt_toString: "parseInt (units (toString n)) = toDouble (of_int n)"
proof -
  have v: "(if (if n < 0 then [45::nat] else []) = [45] then - 1 else 1)
             * int (digitsVal (units (natStr (nat \<bar>n\<bar>)))) = n"
    by (simp add: digitsVal_natStr)
  have ne: "units (natStr (nat \<bar>n\<bar>)) \<noteq> []" by (simp add: units_def natStr_not_Nil)
  show ?thesis
    by (simp only: units_toString parseInt_floatText[OF valid_toString] ne if_False v)
qed

subsection \<open>The two cells\<close>

lemma scoreOfParseInt_None_iff:
  "scoreOfParseInt v = None
     \<longleftrightarrow> takeWhile isDigit (snd (stripSign (dropWhile isWhiteSpace v))) = []"
  by (simp add: scoreOfParseInt_def parseInt_def isNaN_def Let_def case_prod_beta
        toDouble_not_NaN)

lemma scoreOfParseInt_not_NaN: "scoreOfParseInt v \<noteq> Some NaN"
  by (simp add: scoreOfParseInt_def isNaN_def Let_def)

lemma scoreOfParseInt_floatText:
  assumes "validFloat sg ds1 ds2 ex"
  shows "scoreOfParseInt (floatText sg ds1 ds2 ex)
           = (if ds1 = [] then None
              else Some (toDouble (of_int ((if sg = [45] then - 1 else 1) * int (digitsVal ds1)))))"
  by (simp add: scoreOfParseInt_def parseInt_floatText[OF assms] isNaN_def toDouble_not_NaN)

lemma scoreOfParseFloat_floatText:
  assumes "validFloat sg ds1 ds2 ex"
  shows "scoreOfParseFloat (floatText sg ds1 ds2 ex) = Some (toDouble (floatValue sg ds1 ds2 ex))"
  by (simp add: scoreOfParseFloat_def parseFloat_floatText[OF assms] floatText_not_Nil[OF assms])

lemma handleScoreChange_stores:
  assumes "k < length ps" and "pid (ps ! k) = ident" and "i < length (scores (ps ! k))"
  shows "scores (handleScoreChange ident i sc ps ! k) ! i = sc"
  using assms by (simp add: handleScoreChange_def assignIndex_def)

text \<open>
  The single-file cell guards the empty text only: a non-empty text without a numeric prefix
  would be handed on as \<^verbatim>\<open>NaN\<close>. Such a text is not a valid floating-point number, so the
  input element does not deliver it.
\<close>

lemma scoreOfParseFloat_no_prefix: "scoreOfParseFloat (units ''abc'') = Some NaN"
  by (simp add: scoreOfParseFloat_def parseFloat_def stripSign_def isWhiteSpace_def isDigit_def
        fractionPart_def units_def)

text \<open>Both cells round: from the digits of \<open>2\<^sup>5\<^sup>3 + 1\<close> they store \<open>2\<^sup>5\<^sup>3\<close>.\<close>

lemma score_cells_above_2_53:
  "scoreOfParseInt (units ''9007199254740993'') = Some (Fin 9007199254740992)
   \<and> scoreOfParseFloat (units ''9007199254740993'') = Some (Fin 9007199254740992)"
proof -
  have t: "units ''9007199254740993'' = units (toString 9007199254740993)"
    by (simp add: toString_eval)
  have "parseInt (units ''9007199254740993'') = Fin 9007199254740992"
    "parseFloat (units ''9007199254740993'') = Fin 9007199254740992"
    using toDouble_above_2_53
    by (simp_all only: t parseInt_toString parseFloat_toString of_int_numeral)
  then show ?thesis
    by (simp add: scoreOfParseInt_def scoreOfParseFloat_def isNaN_def units_def)
qed

text \<open>
  The claim as it is written fails on the table component, which reads integers: from the
  text \<^verbatim>\<open>3.7\<close> it stores 3 where the number of the text is the double nearest to 3.7 (which
  the single-file cell stores), and from \<^verbatim>\<open>.5\<close> it stores the absent value where the
  number of the text is 1/2.
\<close>

theorem score_cell_counterexample:
  "scoreOfParseInt (units ''3.7'') = Some (Fin 3)
   \<and> scoreOfParseFloat (units ''3.7'') = Some (Fin (4165829655317709 / 1125899906842624))
   \<and> scoreOfParseInt (units ''.5'') = None
   \<and> scoreOfParseFloat (units ''.5'') = Some (Fin (1 / 2))"
proof -
  have a: "units ''3.7'' = floatText [] [51] [55] NoExponent"
    and b: "units ''.5'' = floatText [] [] [53] NoExponent"
    by (simp_all add: units_def floatText_def)
  have va: "validFloat [] [51] [55] NoExponent" and vb: "validFloat [] [] [53] NoExponent"
    by (simp_all add: validFloat_def isDigit_def)
  have xa: "floatValue [] [51] [55] NoExponent = 37 / 10"
    and xb: "floatValue [] [] [53] NoExponent = 1 / 2"
    by (simp_all add: floatValue_def digitsVal_def digitVal_def pow10_def)
  have dv: "digitsVal [51] = 3" by (simp add: digitsVal_def digitVal_def)
  have three: "toDouble 3 = Fin 3" using toDouble_safe_integer[of 3] by simp
  show ?thesis
    by (simp add: a b scoreOfParseInt_floatText[OF va] scoreOfParseInt_floatText[OF vb]
          scoreOfParseFloat_floatText[OF va] scoreOfParseFloat_floatText[OF vb]
          xa xb dv three toDouble_37_10 toDouble_half)
qed

text \<open>
  C8, amended. The texts a score cell receives are the values of an input element of type
  number: the empty text and the valid floating-point numbers. For these neither cell
  stores \<^verbatim>\<open>NaN\<close>, and both store the absent value for the empty text. The cell of the table
  component stores no \<^verbatim>\<open>NaN\<close> for any text at all: it stores the absent value exactly when
  the text, after leading white space and an optional sign, does not start with a decimal
  digit. For a valid floating-point number the single-file cell stores a number, the
  double nearest to the decimal value of the text (for at most 20 digits, where ECMAScript
  fixes the result); the cell of the table component stores the double nearest to the
  signed integer written by the digits before the point or exponent, and the absent value
  when there is no such digit. For the decimal rendering of an integer \<open>n\<close> of magnitude
  below \<open>2\<^sup>5\<^sup>3\<close> both cells store \<open>n\<close>. The value handed to \<open>handleScoreChange\<close> becomes
  the slot \<open>i\<close> of the player with the identifier, for an index inside the score array.
\<close>

theorem score_cell_parsing:
  "scoreOfParseInt [] = None \<and> scoreOfParseFloat [] = None
   \<and> scoreOfParseInt v \<noteq> Some NaN
   \<and> (scoreOfParseInt v = None
        \<longleftrightarrow> takeWhile isDigit (snd (stripSign (dropWhile isWhiteSpace v))) = [])
   \<and> (validFloat sg ds1 ds2 ex \<longrightarrow>
        scoreOfParseFloat (floatText sg ds1 ds2 ex) \<noteq> None
        \<and> scoreOfParseFloat (floatText sg ds1 ds2 ex) \<noteq> Some NaN
        \<and> (length (ds1 @ ds2) \<le> 20 \<longrightarrow>
             scoreOfParseFloat (floatText sg ds1 ds2 ex)
               = Some (toDouble (floatValue sg ds1 ds2 ex)))
        \<and> (scoreOfParseInt (floatText sg ds1 ds2 ex) = None \<longleftrightarrow> ds1 = [])
        \<and> (ds1 \<noteq> [] \<and> length ds1 \<le> 20 \<longrightarrow>
             scoreOfParseInt (floatText sg ds1 ds2 ex)
               = Some (toDouble (of_int ((if sg = [45] then - 1 else 1) * int (digitsVal ds1))))))
   \<and> (\<bar>n\<bar> < 2 ^ 53 \<longrightarrow>
        scoreOfParseInt (units (toString n)) = Some (Fin (of_int n))
        \<and> scoreOfParseFloat (units (toString n)) = Some (Fin (of_int n)))
   \<and> (k < length ps \<and> pid (ps ! k) = ident \<and> i < length (scores (ps ! k)) \<longrightarrow>
        scores (handleScoreChange ident i sc ps ! k) ! i = sc)"
proof -
  have c1: "scoreOfParseInt [] = None"
    by (simp add: scoreOfParseInt_def parseInt_def stripSign_def isNaN_def)
  have c2: "scoreOfParseFloat [] = None" by (simp add: scoreOfParseFloat_def)
  have c5: "validFloat sg ds1 ds2 ex \<longrightarrow>
        scoreOfParseFloat (floatText sg ds1 ds2 ex) \<noteq> None
        \<and> scoreOfParseFloat (floatText sg ds1 ds2 ex) \<noteq> Some NaN
        \<and> (length (ds1 @ ds2) \<le> 20 \<longrightarrow>
             scoreOfParseFloat (floatText sg ds1 ds2 ex)
               = Some (toDouble (floatValue sg ds1 ds2 ex)))
        \<and> (scoreOfParseInt (floatText sg ds1 ds2 ex) = None \<longleftrightarrow> ds1 = [])
        \<and> (ds1 \<noteq> [] \<and> length ds1 \<le> 20 \<longrightarrow>
             scoreOfParseInt (floatText sg ds1 ds2 ex)
               = Some (toDouble (of_int ((if sg = [45] then - 1 else 1) * int (digitsVal ds1)))))"
  proof
    assume v: "validFloat sg ds1 ds2 ex"
    show "scoreOfParseFloat (floatText sg ds1 ds2 ex) \<noteq> None
        \<and> scoreOfParseFloat (floatText sg ds1 ds2 ex) \<noteq> Some NaN
        \<and> (length (ds1 @ ds2) \<le> 20 \<longrightarrow>
             scoreOfParseFloat (floatText sg ds1 ds2 ex)
               = Some (toDouble (floatValue sg ds1 ds2 ex)))
        \<and> (scoreOfParseInt (floatText sg ds1 ds2 ex) = None \<longleftrightarrow> ds1 = [])
        \<and> (ds1 \<noteq> [] \<and> length ds1 \<le> 20 \<longrightarrow>
             scoreOfParseInt (floatText sg ds1 ds2 ex)
               = Some (toDouble (of_int ((if sg = [45] then - 1 else 1) * int (digitsVal ds1)))))"
      by (simp add: scoreOfParseFloat_floatText[OF v] scoreOfParseInt_floatText[OF v]
            toDouble_not_NaN)
  qed
  have c6: "\<bar>n\<bar> < 2 ^ 53 \<longrightarrow>
        scoreOfParseInt (units (toString n)) = Some (Fin (of_int n))
        \<and> scoreOfParseFloat (units (toString n)) = Some (Fin (of_int n))"
  proof
    assume "\<bar>n\<bar> < 2 ^ 53"
    then have d: "toDouble (of_int n) = Fin (of_int n)" by (rule toDouble_safe_integer)
    have "units (toString n) \<noteq> []" by (simp add: units_def toString_def natStr_not_Nil)
    then show "scoreOfParseInt (units (toString n)) = Some (Fin (of_int n))
        \<and> scoreOfParseFloat (units (toString n)) = Some (Fin (of_int n))"
      by (simp add: scoreOfParseInt_def scoreOfParseFloat_def parseInt_toString
            parseFloat_toString d isNaN_def)
  qed
  have c7: "k < length ps \<and> pid (ps ! k) = ident \<and> i < length (scores (ps ! k)) \<longrightarrow>
        scores (handleScoreChange ident i sc ps ! k) ! i = sc"
    by (simp add: handleScoreChange_stores)
  from c1 c2 scoreOfParseInt_not_NaN[of v] scoreOfParseInt_None_iff[of v] c5 c6 c7
  show ?thesis by blast
qed

theorem score_cell_parsing_witness:
  "scoreOfParseInt (units ''-12'') = Some (Fin (- 12))
   \<and> scoreOfParseFloat (units ''-12'') = Some (Fin (- 12))
   \<and> scoreOfParseInt (units ''3.7'') = Some (Fin 3)
   \<and> scoreOfParseFloat (units ''3.7'') = Some (Fin (4165829655317709 / 1125899906842624))
   \<and> scoreOfParseInt (units ''abc'') = None
   \<and> handleScoreChange ''2'' 1 (scoreOfParseInt (units ''-12''))
        [\<lparr>pid = ''1'', name = ''A'', scores = [None, None]\<rparr>,
         \<lparr>pid = ''2'', name = ''B'', scores = [Some (Fin 1), None]\<rparr>]
      = [\<lparr>pid = ''1'', name = ''A'', scores = [None, None]\<rparr>,
         \<lparr>pid = ''2'', name = ''B'', scores = [Some (Fin 1), Some (Fin (- 12))]\<rparr>]"
proof -
  have s: "toString (- 12) = ''-12''" by (simp add: toString_eval)
  have n: "\<bar>- 12 :: int\<bar> < 2 ^ 53" by simp
  have a: "units ''3.7'' = floatText [] [51] [55] NoExponent"
    by (simp add: units_def floatText_def)
  have va: "validFloat [] [51] [55] NoExponent" by (simp add: validFloat_def isDigit_def)
  have l: "length ([51] @ [55] :: nat list) \<le> 20" "[51::nat] \<noteq> [] \<and> length [51::nat] \<le> 20"
    by simp_all
  have xa: "floatValue [] [51] [55] NoExponent = 37 / 10"
    by (simp add: floatValue_def digitsVal_def digitVal_def pow10_def)
  have three: "toDouble (of_int ((if ([]::nat list) = [45] then - 1 else 1) * int (digitsVal [51])))
                 = Fin 3"
    using toDouble_safe_integer[of 3] by (simp add: digitsVal_def digitVal_def)
  have abc: "takeWhile isDigit (snd (stripSign (dropWhile isWhiteSpace (units ''abc'')))) = []"
    by (simp add: units_def stripSign_def isWhiteSpace_def isDigit_def)
  note t = score_cell_parsing [of "units ''abc''" "[]" "[51]" "[55]" NoExponent "- 12" 1
        "[\<lparr>pid = ''1'', name = ''A'', scores = [None, None]\<rparr>,
          \<lparr>pid = ''2'', name = ''B'', scores = [Some (Fin 1), None]\<rparr>]" "''2''" 1 "Some (Fin (- 12))"]
  from t n have m: "scoreOfParseInt (units (toString (- 12))) = Some (Fin (of_int (- 12)))"
    and f: "scoreOfParseFloat (units (toString (- 12))) = Some (Fin (of_int (- 12)))"
    by blast+
  from t va l have p: "scoreOfParseFloat (floatText [] [51] [55] NoExponent)
        = Some (toDouble (floatValue [] [51] [55] NoExponent))"
    and q: "scoreOfParseInt (floatText [] [51] [55] NoExponent)
        = Some (toDouble (of_int ((if ([]::nat list) = [45] then - 1 else 1) * int (digitsVal [51]))))"
    by blast+
  from t abc have x: "scoreOfParseInt (units ''abc'') = None" by blast
  have h: "handleScoreChange ''2'' 1 (Some (Fin (- 12)))
        [\<lparr>pid = ''1'', name = ''A'', scores = [None, None]\<rparr>,
         \<lparr>pid = ''2'', name = ''B'', scores = [Some (Fin 1), None]\<rparr>]
      = [\<lparr>pid = ''1'', name = ''A'', scores = [None, None]\<rparr>,
         \<lparr>pid = ''2'', name = ''B'', scores = [Some (Fin 1), Some (Fin (- 12))]\<rparr>]"
    by (simp add: handleScoreChange_def assignIndex_def)
  from m f have m': "scoreOfParseInt (units ''-12'') = Some (Fin (- 12))"
    and f': "scoreOfParseFloat (units ''-12'') = Some (Fin (- 12))"
    by (simp_all add: s)
  from p q have p': "scoreOfParseFloat (units ''3.7'') = Some (Fin (4165829655317709 / 1125899906842624))"
    and q': "scoreOfParseInt (units ''3.7'') = Some (Fin 3)"
    by (simp_all only: a xa three toDouble_37_10)
  from m' f' q' p' x h show ?thesis by (simp only: simp_thms)
qed

end
